theory Spec2Isabelle
  imports Complex_Main "HOL-Library.Log_Nat"
begin

section \<open>Arena simulation core (game.js): numbers and constants\<close>

text \<open>
  The simulation keeps every quantity in a JavaScript number. Quantities that the source
  only ever assigns whole values (edge counts, levels, part counters, derived stats,
  scores) are modelled as \<^typ>\<open>int\<close>; positions, times, health and multipliers are
  modelled as \<^typ>\<open>real\<close>, with the exact real operation standing for the double
  operation. The one product whose double rounding changes a whole-number result,
  \<^verbatim>\<open>Math.floor(defender.score * SCORE_DROP_FRACTION_PVP)\<close>, is modelled bit for bit
  (see \<open>dbl_mul_const\<close> below). The results of \<^verbatim>\<open>Math.random()\<close> and of
  \<^verbatim>\<open>performance.now()\<close> are inputs of the functions that read them.
\<close>

definition EDGE_CAP :: int where "EDGE_CAP = 32"
definition PLAYER_EDGE_CAP :: int where "PLAYER_EDGE_CAP = 26"
definition PARTS_PER_EDGE :: int where "PARTS_PER_EDGE = 3"
definition PARTS_PER_PLASMA :: int where "PARTS_PER_PLASMA = 3"
definition PLASMA_MAX :: int where "PLASMA_MAX = 10"
definition PLASMA_ATK_PER_LEVEL :: int where "PLASMA_ATK_PER_LEVEL = 2"
definition PLASMA_FIRST_HIT_MULT :: real where "PLASMA_FIRST_HIT_MULT = 3"
definition WAVE_MAX :: int where "WAVE_MAX = 8"
definition WAVE_PARTS_PER_LEVEL :: int where "WAVE_PARTS_PER_LEVEL = 2"
definition REGEN_BOOST_PER_PICKUP :: real where "REGEN_BOOST_PER_PICKUP = 15 / 100"
definition SCORE_PER_EDGE_PART :: int where "SCORE_PER_EDGE_PART = 5"
definition SCORE_PER_REGEN_PART :: int where "SCORE_PER_REGEN_PART = 6"
definition SCORE_PER_WAVE_PART :: int where "SCORE_PER_WAVE_PART = 10"
definition SCORE_PER_ENEMY_KO :: int where "SCORE_PER_ENEMY_KO = 50"
definition SCORE_PER_BOSS_KO :: int where "SCORE_PER_BOSS_KO = 250"
definition ATK_PER_EDGE :: real where "ATK_PER_EDGE = 12 / 10"
definition DEF_PER_EDGE :: real where "DEF_PER_EDGE = 11 / 10"
definition MAXHP_PER_EDGE :: real where "MAXHP_PER_EDGE = 22 / 10"
definition HIT_COOLDOWN_MS :: real where "HIT_COOLDOWN_MS = 320"
definition WORLD_W :: real where "WORLD_W = 4200"
definition WORLD_H :: real where "WORLD_H = 2600"
definition PLAYER_RADIUS :: real where "PLAYER_RADIUS = 18"
definition ENEMY_RADIUS :: real where "ENEMY_RADIUS = 16"
definition PART_RADIUS :: real where "PART_RADIUS = 8"
definition BOSS_MIN_SPAWN_MS :: real where "BOSS_MIN_SPAWN_MS = 24000"
definition BOSS_MAX_SPAWN_MS :: real where "BOSS_MAX_SPAWN_MS = 45000"
definition BOT_STUCK_DIST_EPS :: real where "BOT_STUCK_DIST_EPS = 2"
definition BOT_STUCK_FRAMES :: int where "BOT_STUCK_FRAMES = 10"
definition BOT_ESCAPE_MS :: real where "BOT_ESCAPE_MS = 550"
definition BASE_SPEED :: real where "BASE_SPEED = 230"

text \<open>\<^verbatim>\<open>clamp = (v, a, b) => Math.max(a, Math.min(b, v))\<close>\<close>

definition clamp :: "'a::linorder \<Rightarrow> 'a \<Rightarrow> 'a \<Rightarrow> 'a" where
  "clamp v a b = max a (min b v)"

text \<open>\<^verbatim>\<open>rand = (a, b) => a + Math.random() * (b - a)\<close>, with the draw \<open>u\<close> as input.\<close>

definition rand :: "real \<Rightarrow> real \<Rightarrow> real \<Rightarrow> real" where
  "rand a b u = a + u * (b - a)"

text \<open>\<^verbatim>\<open>Math.round\<close> rounds to the nearest whole number, a tie going up.\<close>

definition Math_round :: "real \<Rightarrow> int" where
  "Math_round v = \<lfloor>v + 1 / 2\<rfloor>"

definition dist2 :: "real \<Rightarrow> real \<Rightarrow> real \<Rightarrow> real \<Rightarrow> real" where
  "dist2 ax ay bx by = (let dx = ax - bx; dy = ay - by in dx * dx + dy * dy)"

text \<open>\<^verbatim>\<open>Math.hypot\<close> of two arguments.\<close>

definition hypot :: "real \<Rightarrow> real \<Rightarrow> real" where
  "hypot a b = sqrt (a * a + b * b)"

section \<open>Stats\<close>

record stats =
  atk :: int
  def :: int
  maxHp :: int

definition computeStats :: "int \<Rightarrow> stats" where
  "computeStats edges =
     (let extra = max 0 (edges - 4) in
      \<lparr> atk = Math_round (10 + of_int extra * ATK_PER_EDGE),
        def = Math_round (10 + of_int extra * DEF_PER_EDGE),
        maxHp = Math_round (100 + of_int extra * MAXHP_PER_EDGE) \<rparr>)"

section \<open>Entities\<close>

text \<open>
  The object literal of \<^verbatim>\<open>makeFighter\<close>, field by field (\<open>f_\<close> prefixed). Player and
  companion bot are both fighters.
\<close>

record fighter =
  f_x :: real
  f_y :: real
  f_vx :: real
  f_vy :: real
  f_r :: real
  f_tint :: string
  f_edges :: int
  f_parts :: int
  f_plasma :: int
  f_plasmaParts :: int
  f_wave :: int
  f_waveParts :: int
  f_regenParts :: int
  f_regenRate :: real
  f_atk :: int
  f_def :: int
  f_maxHp :: int
  f_hp :: real
  f_rot :: real
  f_hitReadyAt :: real
  f_dashReadyAt :: real
  f_dashingUntil :: real
  f_plasmaPrimed :: bool
  f_lastLandedHitAt :: real
  f_aimX :: real
  f_aimY :: real
  f_waveReadyAt :: real
  f_score :: int
  f_stuckFrames :: int
  f_escapeUntil :: real
  f_escapeX :: real
  f_escapeY :: real
  f_invulnUntil :: real
  f_plasmaFlashUntil :: real

definition makeFighter :: "real \<Rightarrow> real \<Rightarrow> string \<Rightarrow> fighter" where
  "makeFighter x y tint =
     (let edges = 4; base = computeStats edges in
      \<lparr> f_x = x, f_y = y, f_vx = 0, f_vy = 0, f_r = PLAYER_RADIUS, f_tint = tint,
        f_edges = edges, f_parts = 0, f_plasma = 0, f_plasmaParts = 0,
        f_wave = 0, f_waveParts = 0, f_regenParts = 0, f_regenRate = 8 / 10,
        f_atk = atk base, f_def = def base, f_maxHp = maxHp base,
        f_hp = of_int (maxHp base),
        f_rot = 0, f_hitReadyAt = 0, f_dashReadyAt = 0, f_dashingUntil = 0,
        f_plasmaPrimed = True, f_lastLandedHitAt = - 1000000000,
        f_aimX = 1, f_aimY = 0, f_waveReadyAt = 0, f_score = 0,
        f_stuckFrames = 0, f_escapeUntil = 0, f_escapeX = 0, f_escapeY = 0,
        f_invulnUntil = 0, f_plasmaFlashUntil = 0 \<rparr>)"

definition makePlayer :: fighter where
  "makePlayer = makeFighter (WORLD_W * (1 / 2)) (WORLD_H * (55 / 100)) ''player''"

definition makeBotPlayer :: fighter where
  "makeBotPlayer = makeFighter (WORLD_W * (1 / 2) + 120) (WORLD_H * (55 / 100) + 90) ''bot''"

datatype enemy_type = Chaser | Skitter | Brute | BossType

text \<open>
  The object literal of \<^verbatim>\<open>makeEnemy\<close>. The boss of \<^verbatim>\<open>makeBoss\<close> has the same fields
  up to the three targeting ones, which it never reads; it is stored in the same record.
\<close>

record enemy =
  e_id :: nat
  e_type :: enemy_type
  e_x :: real
  e_y :: real
  e_vx :: real
  e_vy :: real
  e_r :: real
  e_edges :: int
  e_atk :: int
  e_def :: int
  e_maxHp :: int
  e_hp :: real
  e_rot :: real
  e_hitReadyAt :: real
  e_targetX :: real
  e_targetY :: real
  e_retargetAt :: real

text \<open>The six \<^verbatim>\<open>Math.random()\<close> results that \<^verbatim>\<open>makeEnemy\<close> reads, in order.\<close>

record enemy_draws =
  ed_roll :: real
  ed_x :: real
  ed_y :: real
  ed_rot :: real
  ed_targetX :: real
  ed_targetY :: real

definition makeEnemy :: "enemy_draws \<Rightarrow> nat \<Rightarrow> enemy_type option \<Rightarrow> enemy" where
  "makeEnemy rnd i typeOverride =
     (let roll = ed_roll rnd;
          type = (case typeOverride of
                    Some t \<Rightarrow> t
                  | None \<Rightarrow> (if roll < 55 / 100 then Chaser
                             else if roll < 80 / 100 then Skitter else Brute));
          edges = (if type = Brute then 6 else 4);
          base = computeStats edges;
          r = (if type = Brute then ENEMY_RADIUS + 6
               else if type = Skitter then ENEMY_RADIUS - 2 else ENEMY_RADIUS)
      in \<lparr> e_id = i, e_type = type,
           e_x = rand 120 (WORLD_W - 120) (ed_x rnd),
           e_y = rand 120 (WORLD_H - 120) (ed_y rnd),
           e_vx = 0, e_vy = 0, e_r = r, e_edges = edges,
           e_atk = (if type = Brute then atk base + 2
                    else if type = Skitter then max 6 (atk base - 1) else atk base),
           e_def = (if type = Skitter then max 6 (def base - 1) else def base),
           e_maxHp = (if type = Brute then Math_round (of_int (maxHp base) * (125 / 100))
                      else if type = Skitter then Math_round (of_int (maxHp base) * (85 / 100))
                      else maxHp base),
           e_hp = of_int (maxHp base),
           e_rot = rand 0 (2 * pi) (ed_rot rnd),
           e_hitReadyAt = 0,
           e_targetX = rand 0 WORLD_W (ed_targetX rnd),
           e_targetY = rand 0 WORLD_H (ed_targetY rnd),
           e_retargetAt = 0 \<rparr>)"

datatype part_kind = Edge | Regen | Wave | Score

record part =
  p_x :: real
  p_y :: real
  p_r :: real
  p_kind :: part_kind
  p_value :: "int option"
  p_born :: real

section \<open>Fighter progression\<close>

definition recomputeFighterStats :: "fighter \<Rightarrow> fighter" where
  "recomputeFighterStats p =
     (let base = computeStats (f_edges p);
          p = p\<lparr> f_atk := atk base + f_plasma p * PLASMA_ATK_PER_LEVEL \<rparr>;
          p = p\<lparr> f_def := def base \<rparr>;
          p = p\<lparr> f_maxHp := maxHp base \<rparr>
      in p\<lparr> f_hp := clamp (f_hp p) 0 (of_int (f_maxHp p)) \<rparr>)"

definition addPlasma :: "fighter \<Rightarrow> int \<Rightarrow> fighter" where
  "addPlasma p amount =
     (let prev = f_plasma p;
          p = p\<lparr> f_plasma := clamp (f_plasma p + amount) 0 PLASMA_MAX \<rparr>
      in if f_plasma p \<noteq> prev then
           (let p = recomputeFighterStats p
            in p\<lparr> f_hp := clamp (f_hp p + of_int (Math_round (of_int (f_maxHp p) * (6 / 100))))
                              0 (of_int (f_maxHp p)) \<rparr>)
         else p)"

definition addWave :: "fighter \<Rightarrow> int \<Rightarrow> fighter" where
  "addWave p amount = p\<lparr> f_wave := clamp (f_wave p + amount) 0 WAVE_MAX \<rparr>"

definition regenTick :: "fighter \<Rightarrow> real \<Rightarrow> fighter" where
  "regenTick p dt =
     (let edgeBonus = of_int (max 0 (f_edges p - 4)) * (2 / 100);
          rate = f_regenRate p + of_int (f_regenParts p) * REGEN_BOOST_PER_PICKUP
      in p\<lparr> f_hp := clamp (f_hp p + rate * (1 + edgeBonus) * dt) 0 (of_int (f_maxHp p)) \<rparr>)"

text \<open>\<^verbatim>\<open>part.value || 0\<close>: a missing value counts as 0.\<close>

definition part_value_or_0 :: "part \<Rightarrow> int" where
  "part_value_or_0 part = (case p_value part of None \<Rightarrow> 0 | Some v \<Rightarrow> v)"

definition pickupPart :: "fighter \<Rightarrow> part \<Rightarrow> fighter" where
  "pickupPart f part =
     (if p_kind part = Score then
        f\<lparr> f_score := f_score f + part_value_or_0 part \<rparr>
      else if p_kind part = Edge then
        (if f_edges f < PLAYER_EDGE_CAP then
           (let f = f\<lparr> f_parts := f_parts f + 1 \<rparr>;
                f = f\<lparr> f_score := f_score f + SCORE_PER_EDGE_PART \<rparr>
            in if f_parts f mod PARTS_PER_EDGE = 0 then
                 (let before = f_edges f;
                      f = f\<lparr> f_edges := clamp (f_edges f + 1) 3 PLAYER_EDGE_CAP \<rparr>
                  in if f_edges f \<noteq> before then
                       (let f = recomputeFighterStats f
                        in f\<lparr> f_hp := clamp (f_hp f
                                   + of_int (Math_round ((12 / 100) * of_int (f_maxHp f))))
                                 0 (of_int (f_maxHp f)) \<rparr>)
                     else f)
               else f)
         else
           (let f = f\<lparr> f_plasmaParts := f_plasmaParts f + 1 \<rparr>;
                f = f\<lparr> f_score := f_score f + SCORE_PER_EDGE_PART \<rparr>
            in if f_plasmaParts f mod PARTS_PER_PLASMA = 0 then addPlasma f 1 else f))
      else if p_kind part = Regen then
        (let f = f\<lparr> f_regenParts := f_regenParts f + 1 \<rparr>
         in f\<lparr> f_score := f_score f + SCORE_PER_REGEN_PART \<rparr>)
      else if p_kind part = Wave then
        (let f = f\<lparr> f_waveParts := f_waveParts f + 1 \<rparr>;
             f = f\<lparr> f_score := f_score f + SCORE_PER_WAVE_PART \<rparr>
         in if f_waveParts f mod WAVE_PARTS_PER_LEVEL = 0 then addWave f 1 else f)
      else f)"

section \<open>Simulation state and object references\<close>

record rect =
  o_x :: real
  o_y :: real
  o_w :: real
  o_h :: real

text \<open>
  The source passes fighters, enemies and the boss around by object reference and
  compares references with \<^verbatim>\<open>===\<close>. A reference is modelled by the place of the
  object in \<^verbatim>\<open>state\<close>.
\<close>

datatype ref = RPlayer | RBot | REnemy nat | RBoss

record projectile =
  pr_owner :: ref
  pr_x :: real
  pr_y :: real
  pr_dx :: real
  pr_dy :: real
  pr_w :: real
  pr_len :: real
  pr_speed :: real
  pr_life :: real
  pr_age :: real
  pr_damageMult :: real
  pr_waveLevel :: int
  pr_born :: real

text \<open>
  The \<^verbatim>\<open>state\<close> object, without the camera fields (read by rendering only). The player
  is set by \<^verbatim>\<open>resetGame\<close> before the first tick; the bot and the boss may be \<^verbatim>\<open>null\<close>.
\<close>

record state =
  partsOnField :: "part list"
  enemies :: "enemy list"
  obstacles :: "rect list"
  projectiles :: "projectile list"
  player :: fighter
  botPlayer :: "fighter option"
  kos :: int
  nextPartAt :: real
  boss :: "enemy option"
  nextBossAt :: real
  message :: "string option"
  messageUntil :: real

text \<open>
  Reading a property of \<^verbatim>\<open>null\<close> or \<^verbatim>\<open>undefined\<close> throws a \<^verbatim>\<open>TypeError\<close>; a
  reference is valid when its object exists.
\<close>

datatype error = TypeError

definition valid_ref :: "state \<Rightarrow> ref \<Rightarrow> bool" where
  "valid_ref st t =
     (case t of
        RPlayer \<Rightarrow> True
      | RBot \<Rightarrow> botPlayer st \<noteq> None
      | REnemy i \<Rightarrow> i < length (enemies st)
      | RBoss \<Rightarrow> boss st \<noteq> None)"

definition fighter_of :: "state \<Rightarrow> ref \<Rightarrow> fighter option" where
  "fighter_of st t =
     (case t of RPlayer \<Rightarrow> Some (player st) | RBot \<Rightarrow> botPlayer st | _ \<Rightarrow> None)"

definition enemy_of :: "state \<Rightarrow> ref \<Rightarrow> enemy option" where
  "enemy_of st t =
     (case t of
        REnemy i \<Rightarrow> (if i < length (enemies st) then Some (enemies st ! i) else None)
      | RBoss \<Rightarrow> boss st
      | _ \<Rightarrow> None)"

definition upd_fighter :: "ref \<Rightarrow> (fighter \<Rightarrow> fighter) \<Rightarrow> state \<Rightarrow> state" where
  "upd_fighter t g st =
     (case t of
        RPlayer \<Rightarrow> st\<lparr> player := g (player st) \<rparr>
      | RBot \<Rightarrow> st\<lparr> botPlayer := map_option g (botPlayer st) \<rparr>
      | _ \<Rightarrow> st)"

definition upd_enemy :: "ref \<Rightarrow> (enemy \<Rightarrow> enemy) \<Rightarrow> state \<Rightarrow> state" where
  "upd_enemy t g st =
     (case t of
        REnemy i \<Rightarrow>
          (if i < length (enemies st)
           then st\<lparr> enemies := (enemies st)[i := g (enemies st ! i)] \<rparr> else st)
      | RBoss \<Rightarrow> st\<lparr> boss := map_option g (boss st) \<rparr>
      | _ \<Rightarrow> st)"

text \<open>
  Property reads through a reference. A fighter-only property read on an enemy is
  \<^verbatim>\<open>undefined\<close>, which the source only tests for truthiness: \<open>False\<close>, or 0 for a number.
\<close>

definition get_hp :: "state \<Rightarrow> ref \<Rightarrow> real" where
  "get_hp st t =
     (case fighter_of st t of Some f \<Rightarrow> f_hp f
      | None \<Rightarrow> (case enemy_of st t of Some e \<Rightarrow> e_hp e | None \<Rightarrow> 0))"

definition get_atk :: "state \<Rightarrow> ref \<Rightarrow> int" where
  "get_atk st t =
     (case fighter_of st t of Some f \<Rightarrow> f_atk f
      | None \<Rightarrow> (case enemy_of st t of Some e \<Rightarrow> e_atk e | None \<Rightarrow> 0))"

definition get_def :: "state \<Rightarrow> ref \<Rightarrow> int" where
  "get_def st t =
     (case fighter_of st t of Some f \<Rightarrow> f_def f
      | None \<Rightarrow> (case enemy_of st t of Some e \<Rightarrow> e_def e | None \<Rightarrow> 0))"

definition get_x :: "state \<Rightarrow> ref \<Rightarrow> real" where
  "get_x st t =
     (case fighter_of st t of Some f \<Rightarrow> f_x f
      | None \<Rightarrow> (case enemy_of st t of Some e \<Rightarrow> e_x e | None \<Rightarrow> 0))"

definition get_y :: "state \<Rightarrow> ref \<Rightarrow> real" where
  "get_y st t =
     (case fighter_of st t of Some f \<Rightarrow> f_y f
      | None \<Rightarrow> (case enemy_of st t of Some e \<Rightarrow> e_y e | None \<Rightarrow> 0))"

definition get_r :: "state \<Rightarrow> ref \<Rightarrow> real" where
  "get_r st t =
     (case fighter_of st t of Some f \<Rightarrow> f_r f
      | None \<Rightarrow> (case enemy_of st t of Some e \<Rightarrow> e_r e | None \<Rightarrow> 0))"

definition get_hitReadyAt :: "state \<Rightarrow> ref \<Rightarrow> real" where
  "get_hitReadyAt st t =
     (case fighter_of st t of Some f \<Rightarrow> f_hitReadyAt f
      | None \<Rightarrow> (case enemy_of st t of Some e \<Rightarrow> e_hitReadyAt e | None \<Rightarrow> 0))"

definition get_invulnUntil :: "state \<Rightarrow> ref \<Rightarrow> real" where
  "get_invulnUntil st t = (case fighter_of st t of Some f \<Rightarrow> f_invulnUntil f | None \<Rightarrow> 0)"

definition get_plasmaPrimed :: "state \<Rightarrow> ref \<Rightarrow> bool" where
  "get_plasmaPrimed st t =
     (case fighter_of st t of Some f \<Rightarrow> f_plasmaPrimed f | None \<Rightarrow> False)"

definition get_score :: "state \<Rightarrow> ref \<Rightarrow> int" where
  "get_score st t = (case fighter_of st t of Some f \<Rightarrow> f_score f | None \<Rightarrow> 0)"

definition set_hp :: "ref \<Rightarrow> real \<Rightarrow> state \<Rightarrow> state" where
  "set_hp t v st = upd_enemy t (\<lambda>e. e\<lparr> e_hp := v \<rparr>) (upd_fighter t (\<lambda>f. f\<lparr> f_hp := v \<rparr>) st)"

definition set_hitReadyAt :: "ref \<Rightarrow> real \<Rightarrow> state \<Rightarrow> state" where
  "set_hitReadyAt t v st =
     upd_enemy t (\<lambda>e. e\<lparr> e_hitReadyAt := v \<rparr>) (upd_fighter t (\<lambda>f. f\<lparr> f_hitReadyAt := v \<rparr>) st)"

text \<open>
  \<^verbatim>\<open>attacker.score += n\<close>. Only fighters carry a score; the source never reaches this
  statement with an enemy as attacker.
\<close>

definition add_score :: "ref \<Rightarrow> int \<Rightarrow> state \<Rightarrow> state" where
  "add_score t n st = upd_fighter t (\<lambda>f. f\<lparr> f_score := f_score f + n \<rparr>) st"

section \<open>Respawn\<close>

text \<open>
  \<^verbatim>\<open>respawnFighter(p, isPlayer)\<close>; \<open>clock\<close> is the value of \<^verbatim>\<open>performance.now()\<close> it reads
  and \<open>bs\<close> the current \<^verbatim>\<open>state.boss\<close>.
\<close>

definition respawnFighter :: "real \<Rightarrow> enemy option \<Rightarrow> fighter \<Rightarrow> bool \<Rightarrow> fighter" where
  "respawnFighter clock bs p isPlayer =
     (let now = clock;
          p = p\<lparr> f_x := WORLD_W * (1 / 2) + (if isPlayer then 0 else 220) \<rparr>;
          p = p\<lparr> f_y := WORLD_H * (55 / 100) + (if isPlayer then 0 else 160) \<rparr>;
          p = p\<lparr> f_vx := 0 \<rparr>;
          p = p\<lparr> f_vy := 0 \<rparr>;
          p = recomputeFighterStats p;
          p = p\<lparr> f_hp := of_int (f_maxHp p) \<rparr>;
          p = p\<lparr> f_plasmaPrimed := True \<rparr>;
          p = p\<lparr> f_lastLandedHitAt := - 1000000000 \<rparr>;
          p = p\<lparr> f_stuckFrames := 0 \<rparr>;
          p = p\<lparr> f_escapeUntil := 0 \<rparr>;
          p = p\<lparr> f_invulnUntil := now + 1400 \<rparr>
      in case bs of
           None \<Rightarrow> p
         | Some b \<Rightarrow>
             (let dx = f_x p - e_x b;
                  dy = f_y p - e_y b;
                  d = (if hypot dx dy = 0 then 1 else hypot dx dy)
              in if d < 420 then
                   (let ux = dx / d; uy = dy / d;
                        p = p\<lparr> f_x := clamp (e_x b + ux * 520) (f_r p + 10) (WORLD_W - f_r p - 10) \<rparr>
                    in p\<lparr> f_y := clamp (e_y b + uy * 520) (f_r p + 10) (WORLD_H - f_r p - 10) \<rparr>)
                 else p))"

text \<open>
  What one call of \<^verbatim>\<open>applyDamage\<close> may read from the random source and the clock:
  the damage jitter, per score orb an angle and a distance, the clock readings of
  \<^verbatim>\<open>spawnScoreOrbs\<close> and \<^verbatim>\<open>respawnFighter\<close>, the three draws of \<^verbatim>\<open>respawnEnemy\<close>, and
  the draw of \<^verbatim>\<open>scheduleNextBoss\<close>.
\<close>

record damage_draws =
  dd_jitter :: real
  dd_orbAngle :: "nat \<Rightarrow> real"
  dd_orbDist :: "nat \<Rightarrow> real"
  dd_orbClock :: real
  dd_respawnClock :: real
  dd_enemyX :: real
  dd_enemyY :: real
  dd_enemyReroll :: real
  dd_bossTimer :: real

definition respawnEnemy :: "damage_draws \<Rightarrow> enemy \<Rightarrow> enemy" where
  "respawnEnemy rnd enemy =
     (let enemy = enemy\<lparr> e_x := rand 120 (WORLD_W - 120) (dd_enemyX rnd) \<rparr>;
          enemy = enemy\<lparr> e_y := rand 120 (WORLD_H - 120) (dd_enemyY rnd) \<rparr>;
          enemy = enemy\<lparr> e_vx := 0 \<rparr>;
          enemy = enemy\<lparr> e_vy := 0 \<rparr>;
          enemy =
            (if dd_enemyReroll rnd < 65 / 100 then
               (let prev = e_edges enemy;
                    enemy = enemy\<lparr> e_edges := clamp (e_edges enemy + 1) 3 EDGE_CAP \<rparr>
                in if e_edges enemy \<noteq> prev then
                     (let s = computeStats (e_edges enemy)
                      in enemy\<lparr> e_atk := atk s, e_def := def s, e_maxHp := maxHp s \<rparr>)
                   else enemy)
             else enemy)
      in enemy\<lparr> e_hp := of_int (e_maxHp enemy) \<rparr>)"

definition scheduleNextBoss :: "real \<Rightarrow> real \<Rightarrow> state \<Rightarrow> state" where
  "scheduleNextBoss u now st =
     st\<lparr> nextBossAt := now + rand BOSS_MIN_SPAWN_MS BOSS_MAX_SPAWN_MS u \<rparr>"

section \<open>Score drop\<close>

text \<open>
  \<^verbatim>\<open>SCORE_DROP_FRACTION_PVP = 0.35\<close> is the double \<open>3152519739159347 / 2 ^ 53\<close>. The
  product of a whole score with it is rounded to 53 significant bits, a tie going to the
  even significand: \<open>round53\<close> does this on the numerator.
\<close>

definition SCORE_DROP_FRACTION_PVP_numerator :: nat where
  "SCORE_DROP_FRACTION_PVP_numerator = 3152519739159347"

definition round53 :: "nat \<Rightarrow> nat" where
  "round53 n =
     (let b = floorlog 2 n in
      if b \<le> 53 then n
      else
        (let s = b - 53;
             q = n div 2 ^ s;
             r = n mod 2 ^ s;
             h = 2 ^ (s - 1)
         in (if r < h then q
             else if h < r then q + 1
             else if even q then q else q + 1) * 2 ^ s))"

text \<open>
  \<^verbatim>\<open>score * SCORE_DROP_FRACTION_PVP\<close> in double arithmetic, for a whole \<open>score\<close> that is a
  double itself (any score below \<open>2 ^ 53\<close>).
\<close>

definition dbl_mul_const :: "int \<Rightarrow> real" where
  "dbl_mul_const score =
     of_int (sgn score) * real (round53 (nat \<bar>score\<bar> * SCORE_DROP_FRACTION_PVP_numerator))
       / 2 ^ 53"

text \<open>\<^verbatim>\<open>Math.floor(defender.score * SCORE_DROP_FRACTION_PVP)\<close>\<close>

definition score_dropped :: "int \<Rightarrow> int" where
  "score_dropped score = \<lfloor>dbl_mul_const score\<rfloor>"

text \<open>
  The body of the loop of \<^verbatim>\<open>spawnScoreOrbs\<close> at index \<open>i\<close>: the value of the orb (the
  last one takes what remains) and the part object pushed.
\<close>

definition orbVal :: "nat \<Rightarrow> nat \<Rightarrow> int \<Rightarrow> int" where
  "orbVal chunks i remaining =
     (if i = chunks - 1 then remaining else \<lfloor>real_of_int remaining / real (chunks - i)\<rfloor>)"

definition scoreOrb :: "damage_draws \<Rightarrow> real \<Rightarrow> real \<Rightarrow> real \<Rightarrow> nat \<Rightarrow> int \<Rightarrow> part" where
  "scoreOrb rnd x y now i val =
     (let a = rand 0 (2 * pi) (dd_orbAngle rnd i);
          d = rand 6 26 (dd_orbDist rnd i)
      in \<lparr> p_x = x + cos a * d, p_y = y + sin a * d, p_r = PART_RADIUS + 1,
           p_kind = Score, p_value = Some val, p_born = now \<rparr>)"

text \<open>The loop from index \<open>i\<close> on; every orb is pushed at the end of \<^verbatim>\<open>state.partsOnField\<close>.\<close>

function orbLoop ::
  "damage_draws \<Rightarrow> real \<Rightarrow> real \<Rightarrow> real \<Rightarrow> nat \<Rightarrow> nat \<Rightarrow> int \<Rightarrow> part list \<Rightarrow> part list" where
  "orbLoop rnd x y now chunks i remaining parts =
     (if i < chunks then
        (let val = orbVal chunks i remaining
         in orbLoop rnd x y now chunks (i + 1) (remaining - val)
              (parts @ [scoreOrb rnd x y now i val]))
      else parts)"
  by pat_completeness auto
termination
  by (relation "measure (\<lambda>(rnd, x, y, now, chunks, i, remaining, parts). chunks - i)") auto

definition spawnScoreOrbs :: "damage_draws \<Rightarrow> real \<Rightarrow> real \<Rightarrow> int \<Rightarrow> state \<Rightarrow> state" where
  "spawnScoreOrbs rnd x y scoreAmount st =
     (let now = dd_orbClock rnd;
          remaining = max 0 scoreAmount;
          chunks = clamp \<lceil>real_of_int remaining / 35\<rceil> 2 7
      in st\<lparr> partsOnField := orbLoop rnd x y now (nat chunks) 0 remaining (partsOnField st) \<rparr>)"

section \<open>Combat\<close>

text \<open>Lines \<^verbatim>\<open>base\<close> and \<^verbatim>\<open>dmg\<close> of \<^verbatim>\<open>applyDamage\<close>; \<open>u\<close> is the random draw.\<close>

definition hitDamage :: "real \<Rightarrow> int \<Rightarrow> int \<Rightarrow> real \<Rightarrow> int" where
  "hitDamage u a d mult =
     (let base = of_int a - of_int d * (58 / 100)
      in max 2 (Math_round ((base + rand (- 2) 2 u) * mult)))"

text \<open>The multiplier of a hit: \<^verbatim>\<open>extraMult\<close>, times 3 when the attacker is primed.\<close>

definition hitMult :: "state \<Rightarrow> ref \<Rightarrow> real \<Rightarrow> real" where
  "hitMult st attacker extraMult =
     (if get_plasmaPrimed st attacker then extraMult * PLASMA_FIRST_HIT_MULT else extraMult)"

text \<open>The branch of \<^verbatim>\<open>applyDamage\<close> taken when the defender's health has reached zero.\<close>

definition onDeath :: "damage_draws \<Rightarrow> ref \<Rightarrow> ref \<Rightarrow> real \<Rightarrow> state \<Rightarrow> state" where
  "onDeath rnd attacker defender now st =
     (if defender = RBoss then
        (let st = add_score attacker SCORE_PER_BOSS_KO st;
             st = st\<lparr> message := Some ''BOSS DEFEATED!'' \<rparr>;
             st = st\<lparr> messageUntil := now + 1400 \<rparr>;
             st = st\<lparr> boss := None \<rparr>
         in scheduleNextBoss (dd_bossTimer rnd) now st)
      else
        (let isDefenderAPlayer = (defender = RPlayer \<or> defender = RBot);
             isAttackerAPlayer = (attacker = RPlayer \<or> attacker = RBot)
         in if isDefenderAPlayer \<and> isAttackerAPlayer \<and> attacker \<noteq> defender then
              (let dropped = score_dropped (get_score st defender);
                   st = upd_fighter defender
                          (\<lambda>f. f\<lparr> f_score := max 0 (f_score f - dropped) \<rparr>) st;
                   st = (if dropped > 0
                         then spawnScoreOrbs rnd (get_x st defender) (get_y st defender) dropped st
                         else st);
                   st = add_score attacker SCORE_PER_ENEMY_KO st
               in upd_fighter defender
                    (\<lambda>f. respawnFighter (dd_respawnClock rnd) (boss st) f (defender = RPlayer)) st)
            else if defender \<noteq> RPlayer \<and> defender \<noteq> RBot then
              (let st = st\<lparr> kos := kos st + 1 \<rparr>;
                   st = add_score attacker SCORE_PER_ENEMY_KO st
               in upd_enemy defender (respawnEnemy rnd) st)
            else
              upd_fighter defender
                (\<lambda>f. respawnFighter (dd_respawnClock rnd) (boss st) f (defender = RPlayer)) st))"

text \<open>
  The statements of \<^verbatim>\<open>applyDamage\<close> between the two gates and the death test: the
  primed first strike, the damage, and the player's last-landed-hit stamp.
\<close>

definition landHit :: "damage_draws \<Rightarrow> ref \<Rightarrow> ref \<Rightarrow> real \<Rightarrow> real \<Rightarrow> state \<Rightarrow> state" where
  "landHit rnd attacker defender now extraMult st =
     (let mult = hitMult st attacker extraMult;
          st = (if get_plasmaPrimed st attacker then
                  upd_fighter attacker
                    (\<lambda>f. f\<lparr> f_plasmaPrimed := False, f_plasmaFlashUntil := now + 160 \<rparr>) st
                else st);
          dmg = hitDamage (dd_jitter rnd) (get_atk st attacker) (get_def st defender) mult;
          st = set_hp defender (max 0 (get_hp st defender - of_int dmg)) st
      in if attacker = RPlayer
         then upd_fighter attacker (\<lambda>f. f\<lparr> f_lastLandedHitAt := now \<rparr>) st
         else st)"

text \<open>
  \<^verbatim>\<open>applyDamage(attacker, defender, now, extraMult, fromWave)\<close> of game.js. The visual
  effects it requests (particles, shake, flash, floating text) are left out. A
  \<^verbatim>\<open>null\<close> attacker or defender makes the first property read throw.
\<close>

definition applyDamage ::
  "damage_draws \<Rightarrow> ref \<Rightarrow> ref \<Rightarrow> real \<Rightarrow> real \<Rightarrow> bool \<Rightarrow> state \<Rightarrow> error + state" where
  "applyDamage rnd attacker defender now extraMult fromWave st =
     (if \<not> valid_ref st attacker then Inl TypeError
      else if get_hitReadyAt st attacker > now \<and> \<not> fromWave then Inr st
      else
        (let st = set_hitReadyAt attacker (now + HIT_COOLDOWN_MS) st
         in if \<not> valid_ref st defender then Inl TypeError
            else if get_invulnUntil st defender \<noteq> 0 \<and> now < get_invulnUntil st defender
            then Inr st
            else
              (let st = landHit rnd attacker defender now extraMult st
               in if get_hp st defender \<le> 0
                  then Inr (onDeath rnd attacker defender now st)
                  else Inr st)))"

section \<open>Movement and collision\<close>

text \<open>
  \<^verbatim>\<open>moveEntity\<close> and the two resolvers work on any object with a position, a velocity
  and a radius (fighters, enemies, the boss): \<open>body\<close> holds these five properties.
\<close>

record body =
  b_x :: real
  b_y :: real
  b_vx :: real
  b_vy :: real
  b_r :: real

definition resolveCircleRect :: "body \<Rightarrow> rect \<Rightarrow> body" where
  "resolveCircleRect ent rect =
     (let closestX = clamp (b_x ent) (o_x rect) (o_x rect + o_w rect);
          closestY = clamp (b_y ent) (o_y rect) (o_y rect + o_h rect);
          dx = b_x ent - closestX;
          dy = b_y ent - closestY;
          d2 = dx * dx + dy * dy;
          r = b_r ent + 2
      in if d2 \<ge> r * r then ent
         else
           (let d = sqrt (max (1 / 1000000) d2);
                push = r - d;
                ent = ent\<lparr> b_x := b_x ent + (dx / d) * push \<rparr>
            in ent\<lparr> b_y := b_y ent + (dy / d) * push \<rparr>))"

definition resolveWorldBounds :: "body \<Rightarrow> body" where
  "resolveWorldBounds ent =
     (let ent = ent\<lparr> b_x := clamp (b_x ent) (b_r ent + 6) (WORLD_W - b_r ent - 6) \<rparr>
      in ent\<lparr> b_y := clamp (b_y ent) (b_r ent + 6) (WORLD_H - b_r ent - 6) \<rparr>)"

definition moveEntity :: "rect list \<Rightarrow> body \<Rightarrow> real \<Rightarrow> real \<Rightarrow> body" where
  "moveEntity obs ent dt speed =
     (let ent = ent\<lparr> b_x := b_x ent + b_vx ent * speed * dt \<rparr>;
          ent = ent\<lparr> b_y := b_y ent + b_vy ent * speed * dt \<rparr>;
          ent = resolveWorldBounds ent
      in foldl resolveCircleRect ent obs)"

text \<open>A fighter seen as a body, and the position of a body written back to the fighter.\<close>

definition fighter_body :: "fighter \<Rightarrow> body" where
  "fighter_body f = \<lparr> b_x = f_x f, b_y = f_y f, b_vx = f_vx f, b_vy = f_vy f, b_r = f_r f \<rparr>"

definition moveFighter :: "rect list \<Rightarrow> fighter \<Rightarrow> real \<Rightarrow> real \<Rightarrow> fighter" where
  "moveFighter obs f dt speed =
     (let ent = moveEntity obs (fighter_body f) dt speed
      in f\<lparr> f_x := b_x ent, f_y := b_y ent \<rparr>)"

section \<open>The bot's stuck detection\<close>

text \<open>
  The sections \<^verbatim>\<open>// Movement\<close> and \<^verbatim>\<open>// Stuck detection\<close> of \<^verbatim>\<open>updateBotPlayer\<close> in game.js,
  which run after steering has set the velocity. \<open>ua\<close> and \<open>uj\<close> are the random draws for
  the escape angle and the escape duration.
\<close>

definition botMoveAndDetectStuck ::
  "real \<Rightarrow> real \<Rightarrow> rect list \<Rightarrow> real \<Rightarrow> real \<Rightarrow> fighter \<Rightarrow> fighter" where
  "botMoveAndDetectStuck ua uj obs dt now b =
     (let preX = f_x b;
          preY = f_y b;
          b = moveFighter obs b dt (BASE_SPEED * (94 / 100));
          b = b\<lparr> f_rot := f_rot b + dt * (17 / 10) \<rparr>;
          moved = hypot (f_x b - preX) (f_y b - preY);
          trying = (hypot (f_vx b) (f_vy b) > 2 / 10);
          b = (if trying \<and> moved < BOT_STUCK_DIST_EPS
               then b\<lparr> f_stuckFrames := f_stuckFrames b + 1 \<rparr>
               else b\<lparr> f_stuckFrames := max 0 (f_stuckFrames b - 1) \<rparr>)
      in if f_stuckFrames b \<ge> BOT_STUCK_FRAMES then
           (let b = b\<lparr> f_stuckFrames := 0 \<rparr>;
                a = rand 0 (2 * pi) ua;
                b = b\<lparr> f_escapeX := cos a \<rparr>;
                b = b\<lparr> f_escapeY := sin a \<rparr>
            in b\<lparr> f_escapeUntil := now + BOT_ESCAPE_MS + rand 120 280 uj \<rparr>)
         else b)"

section \<open>Wave projectiles\<close>

definition WAVE_COOLDOWN_MS :: real where "WAVE_COOLDOWN_MS = 950"
definition WAVE_RANGE :: real where "WAVE_RANGE = 520"
definition WAVE_WIDTH :: real where "WAVE_WIDTH = 44"
definition WAVE_SPEED :: real where "WAVE_SPEED = 980"
definition WAVE_DAMAGE_MULT :: real where "WAVE_DAMAGE_MULT = 2"

text \<open>
  \<^verbatim>\<open>tryWave(p, now)\<close>; the caster is a fighter. \<^verbatim>\<open>a || b\<close> on numbers is \<open>b\<close> when \<open>a\<close> is 0.
\<close>

definition tryWave :: "ref \<Rightarrow> real \<Rightarrow> state \<Rightarrow> error + state" where
  "tryWave p now st =
     (case fighter_of st p of
        None \<Rightarrow> Inl TypeError
      | Some f \<Rightarrow>
          if f_wave f \<le> 0 then Inr st
          else if f_waveReadyAt f > now then Inr st
          else
            (let st = upd_fighter p (\<lambda>f. f\<lparr> f_waveReadyAt := now + WAVE_COOLDOWN_MS \<rparr>) st;
                 ax = (if f_aimX f = 0 then 1 else f_aimX f);
                 ay = (if f_aimY f = 0 then 0 else f_aimY f);
                 mag = (if hypot ax ay = 0 then 1 else hypot ax ay);
                 dx = ax / mag;
                 dy = ay / mag
             in Inr (st\<lparr> projectiles := projectiles st @
                  [\<lparr> pr_owner = p,
                     pr_x = f_x f + dx * (f_r f + 8),
                     pr_y = f_y f + dy * (f_r f + 8),
                     pr_dx = dx, pr_dy = dy,
                     pr_w = WAVE_WIDTH, pr_len = 52, pr_speed = WAVE_SPEED,
                     pr_life = WAVE_RANGE / WAVE_SPEED, pr_age = 0,
                     pr_damageMult = WAVE_DAMAGE_MULT, pr_waveLevel = f_wave f,
                     pr_born = now \<rparr>] \<rparr>)))"

text \<open>\<^verbatim>\<open>rectHitProjectile(proj, target)\<close>, the target given by its position and radius.\<close>

definition rectHitProjectile :: "projectile \<Rightarrow> real \<Rightarrow> real \<Rightarrow> real \<Rightarrow> bool" where
  "rectHitProjectile proj tx ty tr =
     (let px = pr_x proj; py = pr_y proj;
          ex = px + pr_dx proj * pr_len proj;
          ey = py + pr_dy proj * pr_len proj;
          vx = ex - px; vy = ey - py;
          wx = tx - px; wy = ty - py;
          c1 = vx * wx + vy * wy;
          r2 = (tr + pr_w proj / 2) ^ 2
      in if c1 \<le> 0 then dist2 tx ty px py \<le> r2
         else
           (let c2 = vx * vx + vy * vy
            in if c2 \<le> c1 then dist2 tx ty ex ey \<le> r2
               else
                 (let b = c1 / c2; bx = px + b * vx; by = py + b * vy
                  in dist2 tx ty bx by \<le> r2)))"

text \<open>
  The \<^verbatim>\<open>targets\<close> array of \<^verbatim>\<open>updateProjectiles\<close>: all enemies, the boss if present, the bot
  if present, the player.
\<close>

definition projectileTargets :: "state \<Rightarrow> ref list" where
  "projectileTargets st =
     map REnemy [0..<length (enemies st)]
     @ (if boss st \<noteq> None then [RBoss] else [])
     @ (if botPlayer st \<noteq> None then [RBot] else [])
     @ [RPlayer]"

text \<open>
  The loop over the targets up to its \<^verbatim>\<open>break\<close>: the first target that is alive, is not
  the owner and passes the hit test. Nothing is written before the hit, so the loop reads
  one state.
\<close>

fun firstHit :: "state \<Rightarrow> projectile \<Rightarrow> ref list \<Rightarrow> ref option" where
  "firstHit st pr [] = None"
| "firstHit st pr (t # ts) =
     (if get_hp st t \<le> 0 then firstHit st pr ts
      else if t = pr_owner pr then firstHit st pr ts
      else if rectHitProjectile pr (get_x st t) (get_y st t) (get_r st t) then Some t
      else firstHit st pr ts)"

text \<open>\<^verbatim>\<open>state.projectiles.splice(i, 1)\<close>\<close>

definition splice1 :: "nat \<Rightarrow> 'a list \<Rightarrow> 'a list" where
  "splice1 i xs = take i xs @ drop (Suc i) xs"

text \<open>
  The body of the loop of \<^verbatim>\<open>updateProjectiles\<close> for the projectile at index \<open>i\<close>; \<open>rnd\<close>
  holds what the call of \<^verbatim>\<open>applyDamage\<close> may draw.
\<close>

definition projectileStep :: "damage_draws \<Rightarrow> real \<Rightarrow> real \<Rightarrow> nat \<Rightarrow> state \<Rightarrow> error + state" where
  "projectileStep rnd dt now i st =
     (let pr = projectiles st ! i;
          pr = pr\<lparr> pr_age := pr_age pr + dt \<rparr>;
          pr = pr\<lparr> pr_x := pr_x pr + pr_dx pr * pr_speed pr * dt \<rparr>;
          pr = pr\<lparr> pr_y := pr_y pr + pr_dy pr * pr_speed pr * dt \<rparr>;
          st = st\<lparr> projectiles := (projectiles st)[i := pr] \<rparr>
      in case firstHit st pr (projectileTargets st) of
           None \<Rightarrow>
             Inr (if pr_age pr \<ge> pr_life pr
                  then st\<lparr> projectiles := splice1 i (projectiles st) \<rparr> else st)
         | Some t \<Rightarrow>
             (let mult = pr_damageMult pr * (1 + of_int (pr_waveLevel pr) * (5 / 100));
                  st = set_hitReadyAt (pr_owner pr)
                         (min (get_hitReadyAt st (pr_owner pr)) now) st
              in case applyDamage rnd (pr_owner pr) t now mult True st of
                   Inl e \<Rightarrow> Inl e
                 | Inr st \<Rightarrow> Inr (st\<lparr> projectiles := splice1 i (projectiles st) \<rparr>)))"

text \<open>
  \<^verbatim>\<open>updateProjectiles(dt, now)\<close>: the indices from the last to the first; \<open>rnds i\<close> are the
  draws available to the projectile at index \<open>i\<close>.
\<close>

fun projectileLoop ::
  "(nat \<Rightarrow> damage_draws) \<Rightarrow> real \<Rightarrow> real \<Rightarrow> nat \<Rightarrow> state \<Rightarrow> error + state" where
  "projectileLoop rnds dt now 0 st = Inr st"
| "projectileLoop rnds dt now (Suc i) st =
     (case projectileStep (rnds i) dt now i st of
        Inl e \<Rightarrow> Inl e
      | Inr st \<Rightarrow> projectileLoop rnds dt now i st)"

definition updateProjectiles ::
  "(nat \<Rightarrow> damage_draws) \<Rightarrow> real \<Rightarrow> real \<Rightarrow> state \<Rightarrow> error + state" where
  "updateProjectiles rnds dt now st = projectileLoop rnds dt now (length (projectiles st)) st"

section \<open>Notions used in the statements\<close>


text \<open>The three updates of a landed hit, as functions on the fighter they touch.\<close>

definition spend_prime :: "state \<Rightarrow> ref \<Rightarrow> real \<Rightarrow> fighter \<Rightarrow> fighter" where
  "spend_prime st a now =
     (if get_plasmaPrimed st a
      then (\<lambda>f. f\<lparr> f_plasmaPrimed := False, f_plasmaFlashUntil := now + 160 \<rparr>) else id)"

definition stamp_hit :: "ref \<Rightarrow> real \<Rightarrow> fighter \<Rightarrow> fighter" where
  "stamp_hit a now = (if a = RPlayer then (\<lambda>f. f\<lparr> f_lastLandedHitAt := now \<rparr>) else id)"

definition hp_after_hit :: "damage_draws \<Rightarrow> ref \<Rightarrow> ref \<Rightarrow> real \<Rightarrow> state \<Rightarrow> real" where
  "hp_after_hit rnd a d m st =
     max 0 (get_hp st d - of_int (hitDamage (dd_jitter rnd) (get_atk st a) (get_def st d)
                                    (hitMult st a m)))"

text \<open>
  The bounds the data model asks of a fighter, and of both fighters of a state.
\<close>

definition fighter_inv :: "fighter \<Rightarrow> bool" where
  "fighter_inv f \<longleftrightarrow>
     0 \<le> f_hp f \<and> f_hp f \<le> of_int (f_maxHp f)
     \<and> 0 \<le> f_edges f \<and> f_edges f \<le> PLAYER_EDGE_CAP
     \<and> 0 \<le> f_plasma f \<and> f_plasma f \<le> PLASMA_MAX
     \<and> 0 \<le> f_wave f \<and> f_wave f \<le> WAVE_MAX"

definition fighters_ok :: "state \<Rightarrow> bool" where
  "fighters_ok st \<longleftrightarrow>
     fighter_inv (player st) \<and> (case botPlayer st of None \<Rightarrow> True | Some b \<Rightarrow> fighter_inv b)"

text \<open>Sample inputs for the concrete instances below: a player and a bot facing each other.\<close>

definition sample_draws :: damage_draws where
  "sample_draws =
     \<lparr> dd_jitter = 1 / 2, dd_orbAngle = (\<lambda>i. 0), dd_orbDist = (\<lambda>i. 1 / 2), dd_orbClock = 1000,
       dd_respawnClock = 1000, dd_enemyX = 1 / 2, dd_enemyY = 1 / 2, dd_enemyReroll = 9 / 10,
       dd_bossTimer = 1 / 2 \<rparr>"

definition duel :: "fighter \<Rightarrow> fighter \<Rightarrow> state" where
  "duel p b =
     \<lparr> partsOnField = [], enemies = [], obstacles = [], projectiles = [],
       player = p, botPlayer = Some b, kos = 0, nextPartAt = 0, boss = None,
       nextBossAt = 0, message = None, messageUntil = 0 \<rparr>"

text \<open>The score a kill adds to the attacker, by the branch of the death dispatch.\<close>

definition ko_bonus :: "ref \<Rightarrow> ref \<Rightarrow> int" where
  "ko_bonus a d =
     (if d = RBoss then SCORE_PER_BOSS_KO
      else if (d = RPlayer \<or> d = RBot) \<and> \<not> ((a = RPlayer \<or> a = RBot) \<and> a \<noteq> d) then 0
      else SCORE_PER_ENEMY_KO)"

text \<open>The distance from a point to the nearest point of a rectangle, as the resolver measures it.\<close>

definition rectDistance :: "real \<Rightarrow> real \<Rightarrow> rect \<Rightarrow> real" where
  "rectDistance x y rect =
     hypot (x - clamp x (o_x rect) (o_x rect + o_w rect))
           (y - clamp y (o_y rect) (o_y rect + o_h rect))"

text \<open>
  What the stuck detection reads: the displacement of this frame, whether the bot is trying
  to move, and the counter after its increment or decay, before the threshold test.
\<close>

definition bot_moved :: "rect list \<Rightarrow> real \<Rightarrow> fighter \<Rightarrow> real" where
  "bot_moved obs dt b =
     (let m = moveFighter obs b dt (BASE_SPEED * (94 / 100))
      in hypot (f_x m - f_x b) (f_y m - f_y b))"

definition bot_trying :: "fighter \<Rightarrow> bool" where
  "bot_trying b \<longleftrightarrow> hypot (f_vx b) (f_vy b) > 2 / 10"

definition stuck_counter :: "rect list \<Rightarrow> real \<Rightarrow> fighter \<Rightarrow> int" where
  "stuck_counter obs dt b =
     (if bot_trying b \<and> bot_moved obs dt b < BOT_STUCK_DIST_EPS
      then f_stuckFrames b + 1 else max 0 (f_stuckFrames b - 1))"

text \<open>
  A projectile after its advance of one frame, and the target it hits: the first target in
  order that is alive, is not the owner and passes the hit test.
\<close>

definition advanceProjectile :: "real \<Rightarrow> projectile \<Rightarrow> projectile" where
  "advanceProjectile dt pr =
     pr\<lparr> pr_age := pr_age pr + dt,
         pr_x := pr_x pr + pr_dx pr * pr_speed pr * dt,
         pr_y := pr_y pr + pr_dy pr * pr_speed pr * dt \<rparr>"

definition projectileHit :: "real \<Rightarrow> nat \<Rightarrow> state \<Rightarrow> ref option" where
  "projectileHit dt i st =
     (let pr = advanceProjectile dt (projectiles st ! i)
      in List.find
           (\<lambda>t. 0 < get_hp st t \<and> t \<noteq> pr_owner pr
                \<and> rectHitProjectile pr (get_x st t) (get_y st t) (get_r st t))
           (projectileTargets st))"


section \<open>Properties of the stat derivation\<close>

lemma Math_round_mono: "a \<le> b \<Longrightarrow> Math_round a \<le> Math_round b"
  unfolding Math_round_def by (intro floor_mono) simp

lemma computeStats_maxHp_ge: "100 \<le> maxHp (computeStats e)"
proof -
  have "(0::real) \<le> of_int (max 0 (e - 4)) * MAXHP_PER_EDGE"
    by (simp add: MAXHP_PER_EDGE_def)
  then have "(100::real) + 1 / 2 \<le> 100 + of_int (max 0 (e - 4)) * MAXHP_PER_EDGE + 1 / 2"
    by simp
  then have "\<lfloor>(100::real) + 1 / 2\<rfloor> \<le> \<lfloor>100 + of_int (max 0 (e - 4)) * MAXHP_PER_EDGE + 1 / 2\<rfloor>"
    by (rule floor_mono)
  moreover have "\<lfloor>(100::real) + 1 / 2\<rfloor> = 100" by linarith
  ultimately show ?thesis
    by (simp add: computeStats_def Math_round_def Let_def)
qed

text \<open>
  C8. For edge counts \<open>e \<le> e'\<close> between 4 and the cap (the enemy cap 32, which covers the
  player cap 26), attack, defense and max-health of \<open>computeStats\<close> do not decrease.
\<close>

theorem computeStats_monotone:
  assumes "4 \<le> e" and "e \<le> e'" and "e' \<le> EDGE_CAP"
  shows "atk (computeStats e) \<le> atk (computeStats e')
       \<and> def (computeStats e) \<le> def (computeStats e')
       \<and> maxHp (computeStats e) \<le> maxHp (computeStats e')"
proof -
  have x: "(of_int (max 0 (e - 4)) :: real) \<le> of_int (max 0 (e' - 4))"
    using assms(2) by simp
  have "atk (computeStats e) \<le> atk (computeStats e')"
    unfolding computeStats_def Let_def using x
    by (simp add: Math_round_mono ATK_PER_EDGE_def)
  moreover have "def (computeStats e) \<le> def (computeStats e')"
    unfolding computeStats_def Let_def using x
    by (simp add: Math_round_mono DEF_PER_EDGE_def)
  moreover have "maxHp (computeStats e) \<le> maxHp (computeStats e')"
    unfolding computeStats_def Let_def using x
    by (simp add: Math_round_mono MAXHP_PER_EDGE_def)
  ultimately show ?thesis by simp
qed

theorem computeStats_monotone_witness:
  "atk (computeStats 5) \<le> atk (computeStats 26)
   \<and> def (computeStats 5) \<le> def (computeStats 26)
   \<and> maxHp (computeStats 5) \<le> maxHp (computeStats 26)"
  using computeStats_monotone [of 5 26] by (simp add: EDGE_CAP_def)

lemma computeStats_4: "computeStats 4 = \<lparr> atk = 10, def = 10, maxHp = 100 \<rparr>"
  by (simp add: computeStats_def Math_round_def)

lemma computeStats_6: "computeStats 6 = \<lparr> atk = 12, def = 12, maxHp = 104 \<rparr>"
  by (simp add: computeStats_def Math_round_def ATK_PER_EDGE_def DEF_PER_EDGE_def
      MAXHP_PER_EDGE_def)

section \<open>Enemy creation\<close>

text \<open>
  C9. A fresh enemy does not always start at full health: \<^verbatim>\<open>makeEnemy\<close> sets \<^verbatim>\<open>hp\<close> to
  the unscaled \<^verbatim>\<open>base.maxHp\<close>, so a skitter (a roll of 0.6) starts with 100 health above its
  maximum of 85 and a brute (a roll of 0.9) with 104 health below its maximum of 130.
\<close>

theorem makeEnemy_hp_not_maxHp:
  "e_type (makeEnemy (rnd\<lparr> ed_roll := 6 / 10 \<rparr>) i None) = Skitter
   \<and> e_hp (makeEnemy (rnd\<lparr> ed_roll := 6 / 10 \<rparr>) i None) = 100
   \<and> e_maxHp (makeEnemy (rnd\<lparr> ed_roll := 6 / 10 \<rparr>) i None) = 85
   \<and> e_type (makeEnemy (rnd\<lparr> ed_roll := 9 / 10 \<rparr>) i None) = Brute
   \<and> e_hp (makeEnemy (rnd\<lparr> ed_roll := 9 / 10 \<rparr>) i None) = 104
   \<and> e_maxHp (makeEnemy (rnd\<lparr> ed_roll := 9 / 10 \<rparr>) i None) = 130"
  by (simp add: makeEnemy_def computeStats_4 computeStats_6 Math_round_def)

text \<open>A chaser, the variant without scaling, does start at full health.\<close>

lemma makeEnemy_chaser_full_health:
  "e_hp (makeEnemy rnd i (Some Chaser)) = of_int (e_maxHp (makeEnemy rnd i (Some Chaser)))"
  by (simp add: makeEnemy_def computeStats_4)

section \<open>Respawn of a fighter\<close>

text \<open>
  C6. Whatever the fighter's state, the boss and the clock reading, \<^verbatim>\<open>respawnFighter\<close>
  leaves edges and plasma as they are, sets the stats to those computed from them, the
  health to that max-health, the velocity to zero, the primed flag to true, the stuck
  counter and the escape deadline to zero, and the invulnerability deadline to 1400 ms
  after the clock reading, which is strictly later than the reading.
\<close>

theorem respawnFighter_restores:
  "f_hp (respawnFighter clock bs p isPlayer) = of_int (maxHp (computeStats (f_edges p)))
   \<and> f_maxHp (respawnFighter clock bs p isPlayer) = maxHp (computeStats (f_edges p))
   \<and> f_atk (respawnFighter clock bs p isPlayer)
       = atk (computeStats (f_edges p)) + f_plasma p * PLASMA_ATK_PER_LEVEL
   \<and> f_def (respawnFighter clock bs p isPlayer) = def (computeStats (f_edges p))
   \<and> f_edges (respawnFighter clock bs p isPlayer) = f_edges p
   \<and> f_plasma (respawnFighter clock bs p isPlayer) = f_plasma p
   \<and> f_vx (respawnFighter clock bs p isPlayer) = 0
   \<and> f_vy (respawnFighter clock bs p isPlayer) = 0
   \<and> f_plasmaPrimed (respawnFighter clock bs p isPlayer)
   \<and> f_stuckFrames (respawnFighter clock bs p isPlayer) = 0
   \<and> f_escapeUntil (respawnFighter clock bs p isPlayer) = 0
   \<and> f_invulnUntil (respawnFighter clock bs p isPlayer) = clock + 1400
   \<and> clock < f_invulnUntil (respawnFighter clock bs p isPlayer)"
  by (simp add: respawnFighter_def recomputeFighterStats_def Let_def split: option.split)


section \<open>The score drop and the orb loop\<close>

declare orbLoop.simps [simp del]



lemma round53_error:
  assumes "53 < floorlog 2 n"
  shows "n \<le> round53 n + 2 ^ (floorlog 2 n - 54) \<and> round53 n \<le> n + 2 ^ (floorlog 2 n - 54)"
proof -
  define s where "s = floorlog 2 n - 53"
  define q where "q = n div 2 ^ s"
  define r where "r = n mod 2 ^ s"
  define h :: nat where "h = 2 ^ (s - 1)"
  have spos: "0 < s" using assms by (simp add: s_def)
  have hh: "2 ^ s = 2 * h" using spos by (cases s) (simp_all add: h_def)
  have "n = q * 2 ^ s + r" using div_mult_mod_eq[of n "2 ^ s"] by (simp only: q_def r_def)
  then have n: "n = q * (2 * h) + r" by (simp only: hh)
  have "r < 2 ^ s" by (simp add: r_def)
  then have rlt: "r < 2 * h" by (simp only: hh)
  have h54: "2 ^ (floorlog 2 n - 54) = h"
    using assms by (simp add: h_def s_def)
  have "round53 n = (if r < h then q else if h < r then q + 1
                          else if even q then q else q + 1) * 2 ^ s"
    using assms
    unfolding round53_def Let_def s_def[symmetric] q_def[symmetric] r_def[symmetric]
        h_def[symmetric]
    by simp
  then have val: "round53 n = (if r < h then q else if h < r then q + 1
                          else if even q then q else q + 1) * (2 * h)"
    by (simp only: hh)
  show ?thesis
    unfolding h54 val using n rlt by (auto simp add: algebra_simps)
qed

lemma round53_exact: "floorlog 2 n \<le> 53 \<Longrightarrow> round53 n = n"
  by (simp add: round53_def)

text \<open>
  For a score up to \<open>2 ^ 50\<close> the dropped amount is the floor of the exact product
  \<open>score * 7 / 20\<close>, or one less.
\<close>

lemma score_dropped_near_exact:
  assumes "0 \<le> score" and "score \<le> 2 ^ 50"
  shows "score * 7 div 20 - 1 \<le> score_dropped score \<and> score_dropped score \<le> score * 7 div 20"
proof -
  define sc where "sc = nat score"
  define n where "n = sc * SCORE_DROP_FRACTION_PVP_numerator"
  define k where "k = sc * 7 div 20"
  have sc: "score = int sc" "sc \<le> 2 ^ 50"
    using assms by (simp_all add: sc_def nat_le_iff)
  have n20: "20 * n + 4 * sc = 7 * sc * 2 ^ 53"
    by (simp add: n_def SCORE_DROP_FRACTION_PVP_numerator_def)
  have k1: "20 * k \<le> 7 * sc" and k2: "7 * sc < 20 * k + 20"
    unfolding k_def by (simp_all add: mult.commute[of 7 sc]) 
  have err: "n \<le> round53 n + e \<and> round53 n \<le> n + e \<and> 2 ^ 53 * e \<le> n" if "e = (if 53 < floorlog 2 n then 2 ^ (floorlog 2 n - 54) else 0)" for e
  proof (cases "53 < floorlog 2 n")
    case True
    then have npos: "0 < n" by (cases "n = 0") (simp_all add: floorlog_def)
    have "2 ^ (floorlog 2 n - 1) \<le> n" using floorlog_bounds[of n 2] npos by simp
    moreover have "(2::nat) ^ 53 * 2 ^ (floorlog 2 n - 54) = 2 ^ (floorlog 2 n - 1)"
    proof -
      obtain j where j: "floorlog 2 n = 54 + j" using True less_imp_add_positive[of 53 "floorlog 2 n"]
        by (metis Suc_eq_plus1 add.assoc add.commute less_iff_Suc_add numeral_plus_one
            semiring_norm(5) semiring_norm(8) add_Suc_right)
      have "(2::nat) ^ 53 * 2 ^ j = 2 ^ (53 + j)" by (simp only: power_add)
      then show ?thesis by (simp add: j)
    qed
    ultimately show ?thesis using round53_error[OF True] True that by simp
  next
    case False
    then show ?thesis using that by (simp add: round53_exact)
  qed
  define e where "e = (if 53 < floorlog 2 n then 2 ^ (floorlog 2 n - 54) else (0::nat))"
  note E = err[OF e_def]
  have upper: "round53 n < (k + 1) * 2 ^ 53"
  proof -
    have "20 * 2 ^ 53 * e \<le> 20 * n" using E by simp
    then have "20 * 2 ^ 53 * e \<le> 7 * sc * 2 ^ 53" using n20 by linarith
    then have "20 * e \<le> 7 * sc" by simp
    then have "20 * e \<le> 7 * 2 ^ 50" using sc(2) by linarith
    then have e_small: "20 * e + 3 * sc < 2 ^ 53 + 4 * sc" by simp
    have "20 * round53 n \<le> 20 * n + 20 * e" using E by simp
    also have "\<dots> = 7 * sc * 2 ^ 53 + 20 * e - 4 * sc" using n20 by simp
    finally have "20 * round53 n + 4 * sc \<le> 7 * sc * 2 ^ 53 + 20 * e"
      using n20 by linarith
    moreover have "7 * sc * 2 ^ 53 \<le> (20 * k + 19) * 2 ^ 53"
      using k2 by (intro mult_right_mono) simp_all
    ultimately have "20 * round53 n + 4 * sc \<le> (20 * k + 19) * 2 ^ 53 + 20 * e" by linarith
    moreover have "20 * e < 2 ^ 53 + 4 * sc" using e_small by simp
    ultimately have "20 * round53 n < (20 * k + 20) * 2 ^ 53" by (simp add: algebra_simps)
    then show ?thesis by (simp add: algebra_simps)
  qed
  have lower: "k * 2 ^ 53 \<le> round53 n + 2 ^ 53"
  proof -
    have "20 * 2 ^ 53 * e \<le> 20 * n" using E by simp
    then have "20 * 2 ^ 53 * e \<le> 7 * sc * 2 ^ 53" using n20 by linarith
    then have "20 * e \<le> 7 * sc" by simp
    have "20 * k * 2 ^ 53 \<le> 7 * sc * 2 ^ 53" using k1 by simp
    also have "\<dots> = 20 * n + 4 * sc" using n20 by simp
    also have "\<dots> \<le> 20 * round53 n + 20 * e + 4 * sc" using E by simp
    also have "\<dots> \<le> 20 * round53 n + 11 * sc" using \<open>20 * e \<le> 7 * sc\<close> by simp
    also have "\<dots> \<le> 20 * round53 n + 20 * 2 ^ 53" using sc(2) by simp
    finally show ?thesis by simp
  qed
  have val: "score_dropped score = int (round53 n div 2 ^ 53)"
  proof (cases "sc = 0")
    case True
    then show ?thesis
      by (simp add: score_dropped_def dbl_mul_const_def sc(1) n_def round53_def floorlog_def)
  next
    case False
    then have dm: "dbl_mul_const score = real (round53 n) / real (2 ^ 53)"
      by (simp add: dbl_mul_const_def sc(1) n_def)
    show ?thesis
      unfolding score_dropped_def dm by (rule floor_divide_of_nat_eq)
  qed
  have "round53 n div 2 ^ 53 \<le> k"
    using upper by (simp add: less_mult_imp_div_less Suc_le_eq flip: less_Suc_eq_le)
  moreover have "k \<le> round53 n div 2 ^ 53 + 1"
  proof -
    have "k * 2 ^ 53 < (round53 n div 2 ^ 53 + 1 + 1) * 2 ^ 53"
    proof -
      have "round53 n < (round53 n div 2 ^ 53 + 1) * 2 ^ 53"
        using div_mult_mod_eq[of "round53 n" "2 ^ 53"] mod_less_divisor[of "2 ^ 53" "round53 n"]
        by (simp add: algebra_simps)
      then show ?thesis using lower by (simp add: algebra_simps)
    qed
    then have "k < round53 n div 2 ^ 53 + 1 + 1" by (simp only: mult_less_cancel2)
    then show ?thesis by simp
  qed
  moreover have "score * 7 div 20 = int k"
    by (simp add: k_def sc(1) zdiv_int)
  ultimately show ?thesis unfolding val by linarith
qed




lemma exact_floor_180: "\<lfloor>(180::real) * (35 / 100)\<rfloor> = 63"
  by simp






lemma spawnScoreOrbs_frame:
  "fighter_of (spawnScoreOrbs rnd x y n st) t = fighter_of st t"
  "enemy_of (spawnScoreOrbs rnd x y n st) t = enemy_of st t"
  "boss (spawnScoreOrbs rnd x y n st) = boss st"
  by (cases t; simp add: spawnScoreOrbs_def Let_def fighter_of_def enemy_of_def)+

section \<open>The object store\<close>

lemma fighter_of_upd_fighter:
  "fighter_of (upd_fighter t g st) t' =
     (if t = t' then map_option g (fighter_of st t') else fighter_of st t')"
  by (cases t; cases t') (simp_all add: fighter_of_def upd_fighter_def)

lemma fighter_of_upd_enemy: "fighter_of (upd_enemy t g st) t' = fighter_of st t'"
  by (cases t; cases t') (simp_all add: fighter_of_def upd_enemy_def)

lemma enemy_of_upd_fighter: "enemy_of (upd_fighter t g st) t' = enemy_of st t'"
  by (cases t; cases t') (simp_all add: enemy_of_def upd_fighter_def)

lemma enemy_of_upd_enemy:
  "enemy_of (upd_enemy t g st) t' =
     (if t = t' then map_option g (enemy_of st t') else enemy_of st t')"
  by (cases t; cases t') (auto simp add: enemy_of_def upd_enemy_def)

lemma valid_ref_iff: "valid_ref st t \<longleftrightarrow> fighter_of st t \<noteq> None \<or> enemy_of st t \<noteq> None"
  by (cases t) (simp_all add: valid_ref_def fighter_of_def enemy_of_def)

lemma upd_fighter_frame:
  "partsOnField (upd_fighter t g st) = partsOnField st"
  "boss (upd_fighter t g st) = boss st"
  "enemies (upd_fighter t g st) = enemies st"
  "projectiles (upd_fighter t g st) = projectiles st"
  "obstacles (upd_fighter t g st) = obstacles st"
  "kos (upd_fighter t g st) = kos st"
  by (cases t; simp add: upd_fighter_def)+

lemma upd_enemy_frame:
  "partsOnField (upd_enemy t g st) = partsOnField st"
  "player (upd_enemy t g st) = player st"
  "botPlayer (upd_enemy t g st) = botPlayer st"
  "projectiles (upd_enemy t g st) = projectiles st"
  "obstacles (upd_enemy t g st) = obstacles st"
  "kos (upd_enemy t g st) = kos st"
  by (cases t; simp add: upd_enemy_def)+

lemmas store_simps = fighter_of_upd_fighter fighter_of_upd_enemy enemy_of_upd_fighter
  enemy_of_upd_enemy upd_fighter_frame upd_enemy_frame

lemmas get_defs = get_hp_def get_atk_def get_def_def get_x_def get_y_def get_r_def
  get_hitReadyAt_def get_invulnUntil_def get_plasmaPrimed_def get_score_def


lemma fighter_of_fields:
  "fighter_of (st\<lparr> partsOnField := ps \<rparr>) t = fighter_of st t"
  "fighter_of (st\<lparr> kos := k \<rparr>) t = fighter_of st t"
  "fighter_of (st\<lparr> boss := b \<rparr>) t = fighter_of st t"
  "fighter_of (st\<lparr> message := msg \<rparr>) t = fighter_of st t"
  "fighter_of (st\<lparr> messageUntil := mu \<rparr>) t = fighter_of st t"
  "fighter_of (st\<lparr> nextBossAt := nb \<rparr>) t = fighter_of st t"
  "fighter_of (st\<lparr> projectiles := prs \<rparr>) t = fighter_of st t"
  by (cases t; simp add: fighter_of_def)+

lemma enemy_of_fields:
  "enemy_of (st\<lparr> partsOnField := ps \<rparr>) t = enemy_of st t"
  "enemy_of (st\<lparr> kos := k \<rparr>) t = enemy_of st t"
  "enemy_of (st\<lparr> message := msg \<rparr>) t = enemy_of st t"
  "enemy_of (st\<lparr> messageUntil := mu \<rparr>) t = enemy_of st t"
  "enemy_of (st\<lparr> nextBossAt := nb \<rparr>) t = enemy_of st t"
  "enemy_of (st\<lparr> projectiles := prs \<rparr>) t = enemy_of st t"
  "t \<noteq> RBoss \<Longrightarrow> enemy_of (st\<lparr> boss := b \<rparr>) t = enemy_of st t"
  by (cases t; simp add: enemy_of_def)+

lemma upd_fighter_id [simp]: "upd_fighter t id st = st" "upd_fighter t (\<lambda>f. f) st = st"
  by (cases t; simp add: upd_fighter_def option.map_ident id_def)+

text \<open>Reads through a reference after an update that keeps the property.\<close>

lemma get_upd_fighter:
  "(\<And>f. f_hp (g f) = f_hp f) \<Longrightarrow> get_hp (upd_fighter t g st) t' = get_hp st t'"
  "(\<And>f. f_atk (g f) = f_atk f) \<Longrightarrow> get_atk (upd_fighter t g st) t' = get_atk st t'"
  "(\<And>f. f_def (g f) = f_def f) \<Longrightarrow> get_def (upd_fighter t g st) t' = get_def st t'"
  "(\<And>f. f_x (g f) = f_x f) \<Longrightarrow> get_x (upd_fighter t g st) t' = get_x st t'"
  "(\<And>f. f_y (g f) = f_y f) \<Longrightarrow> get_y (upd_fighter t g st) t' = get_y st t'"
  "(\<And>f. f_r (g f) = f_r f) \<Longrightarrow> get_r (upd_fighter t g st) t' = get_r st t'"
  "(\<And>f. f_hitReadyAt (g f) = f_hitReadyAt f)
     \<Longrightarrow> get_hitReadyAt (upd_fighter t g st) t' = get_hitReadyAt st t'"
  "(\<And>f. f_invulnUntil (g f) = f_invulnUntil f)
     \<Longrightarrow> get_invulnUntil (upd_fighter t g st) t' = get_invulnUntil st t'"
  "(\<And>f. f_plasmaPrimed (g f) = f_plasmaPrimed f)
     \<Longrightarrow> get_plasmaPrimed (upd_fighter t g st) t' = get_plasmaPrimed st t'"
  "(\<And>f. f_score (g f) = f_score f) \<Longrightarrow> get_score (upd_fighter t g st) t' = get_score st t'"
  by (cases "fighter_of st t'"; simp add: get_defs store_simps)+

lemma get_upd_enemy:
  "(\<And>e. e_hp (g e) = e_hp e) \<Longrightarrow> get_hp (upd_enemy t g st) t' = get_hp st t'"
  "(\<And>e. e_atk (g e) = e_atk e) \<Longrightarrow> get_atk (upd_enemy t g st) t' = get_atk st t'"
  "(\<And>e. e_def (g e) = e_def e) \<Longrightarrow> get_def (upd_enemy t g st) t' = get_def st t'"
  "(\<And>e. e_x (g e) = e_x e) \<Longrightarrow> get_x (upd_enemy t g st) t' = get_x st t'"
  "(\<And>e. e_y (g e) = e_y e) \<Longrightarrow> get_y (upd_enemy t g st) t' = get_y st t'"
  "(\<And>e. e_r (g e) = e_r e) \<Longrightarrow> get_r (upd_enemy t g st) t' = get_r st t'"
  "(\<And>e. e_hitReadyAt (g e) = e_hitReadyAt e)
     \<Longrightarrow> get_hitReadyAt (upd_enemy t g st) t' = get_hitReadyAt st t'"
  "get_invulnUntil (upd_enemy t g st) t' = get_invulnUntil st t'"
  "get_plasmaPrimed (upd_enemy t g st) t' = get_plasmaPrimed st t'"
  "get_score (upd_enemy t g st) t' = get_score st t'"
  by (cases "fighter_of st t'"; cases "enemy_of st t'"; simp add: get_defs store_simps)+

lemma valid_ref_upd:
  "valid_ref (upd_fighter t g st) t' = valid_ref st t'"
  "valid_ref (upd_enemy t h st) t' = valid_ref st t'"
  by (cases "fighter_of st t'"; cases "enemy_of st t'"; simp add: valid_ref_iff store_simps)+

lemma get_hp_set_hp:
  "get_hp (set_hp t v st) t' = (if t = t' \<and> valid_ref st t then v else get_hp st t')"
  by (cases "fighter_of st t'"; cases "enemy_of st t'";
      simp add: get_hp_def set_hp_def store_simps valid_ref_iff)

lemma get_set_hitReadyAt:
  "get_hp (set_hitReadyAt t v st) t' = get_hp st t'"
  "get_atk (set_hitReadyAt t v st) t' = get_atk st t'"
  "get_def (set_hitReadyAt t v st) t' = get_def st t'"
  "get_x (set_hitReadyAt t v st) t' = get_x st t'"
  "get_y (set_hitReadyAt t v st) t' = get_y st t'"
  "get_r (set_hitReadyAt t v st) t' = get_r st t'"
  "get_invulnUntil (set_hitReadyAt t v st) t' = get_invulnUntil st t'"
  "get_plasmaPrimed (set_hitReadyAt t v st) t' = get_plasmaPrimed st t'"
  "get_score (set_hitReadyAt t v st) t' = get_score st t'"
  "valid_ref (set_hitReadyAt t v st) t' = valid_ref st t'"
  "partsOnField (set_hitReadyAt t v st) = partsOnField st"
  by (simp_all add: set_hitReadyAt_def get_upd_fighter get_upd_enemy valid_ref_upd store_simps)

lemma get_hitReadyAt_set:
  "valid_ref st t \<Longrightarrow> get_hitReadyAt (set_hitReadyAt t v st) t = v"
  by (cases "fighter_of st t"; cases "enemy_of st t";
      simp add: get_hitReadyAt_def set_hitReadyAt_def store_simps valid_ref_iff)


lemma get_projectiles_upd:
  "get_hp (st\<lparr> projectiles := prs \<rparr>) t = get_hp st t"
  "get_x (st\<lparr> projectiles := prs \<rparr>) t = get_x st t"
  "get_y (st\<lparr> projectiles := prs \<rparr>) t = get_y st t"
  "get_r (st\<lparr> projectiles := prs \<rparr>) t = get_r st t"
  "get_hitReadyAt (st\<lparr> projectiles := prs \<rparr>) t = get_hitReadyAt st t"
  "valid_ref (st\<lparr> projectiles := prs \<rparr>) t = valid_ref st t"
  "projectileTargets (st\<lparr> projectiles := prs \<rparr>) = projectileTargets st"
  by (cases "fighter_of st t";
      simp add: get_defs fighter_of_fields enemy_of_fields valid_ref_iff projectileTargets_def)+

section \<open>A landed hit\<close>

lemma landHit_eq:
  "landHit rnd a d now m st =
     upd_fighter a (stamp_hit a now)
       (set_hp d (hp_after_hit rnd a d m st) (upd_fighter a (spend_prime st a now) st))"
  by (simp add: landHit_def Let_def spend_prime_def stamp_hit_def hp_after_hit_def get_upd_fighter)


lemma spend_prime_keeps:
  "f_hp (spend_prime st a now f) = f_hp f"
  "f_atk (spend_prime st a now f) = f_atk f"
  "f_def (spend_prime st a now f) = f_def f"
  "f_x (spend_prime st a now f) = f_x f"
  "f_y (spend_prime st a now f) = f_y f"
  "f_r (spend_prime st a now f) = f_r f"
  "f_score (spend_prime st a now f) = f_score f"
  "f_hitReadyAt (spend_prime st a now f) = f_hitReadyAt f"
  "f_invulnUntil (spend_prime st a now f) = f_invulnUntil f"
  by (simp_all add: spend_prime_def)

lemma stamp_hit_keeps:
  "f_hp (stamp_hit a now f) = f_hp f"
  "f_atk (stamp_hit a now f) = f_atk f"
  "f_def (stamp_hit a now f) = f_def f"
  "f_x (stamp_hit a now f) = f_x f"
  "f_y (stamp_hit a now f) = f_y f"
  "f_r (stamp_hit a now f) = f_r f"
  "f_score (stamp_hit a now f) = f_score f"
  "f_hitReadyAt (stamp_hit a now f) = f_hitReadyAt f"
  "f_invulnUntil (stamp_hit a now f) = f_invulnUntil f"
  "f_plasmaPrimed (stamp_hit a now f) = f_plasmaPrimed f"
  by (simp_all add: stamp_hit_def)

lemma hp_after_hit_set_hitReadyAt:
  "hp_after_hit rnd a d m (set_hitReadyAt t v st) = hp_after_hit rnd a d m st"
  by (simp add: hp_after_hit_def hitMult_def get_set_hitReadyAt)


lemma get_hp_landHit:
  "get_hp (landHit rnd a d now m st) t =
     (if d = t \<and> valid_ref st d then hp_after_hit rnd a d m st else get_hp st t)"
  by (auto simp add: landHit_eq get_upd_fighter get_hp_set_hp valid_ref_upd
      spend_prime_keeps stamp_hit_keeps)

lemma hitDamage_ge: "2 \<le> hitDamage u a d m"
  by (simp add: hitDamage_def Let_def)


text \<open>The state in which \<open>applyDamage\<close> ends when the hit lands.\<close>

lemma applyDamage_lands:
  assumes "valid_ref st a" and "valid_ref st d"
    and "get_hitReadyAt st a \<le> now \<or> w"
    and "get_invulnUntil st d = 0 \<or> get_invulnUntil st d \<le> now"
  shows "applyDamage rnd a d now m w st =
     (let st1 = landHit rnd a d now m (set_hitReadyAt a (now + HIT_COOLDOWN_MS) st)
      in if hp_after_hit rnd a d m st \<le> 0 then Inr (onDeath rnd a d now st1) else Inr st1)"
  using assms
  by (auto simp add: applyDamage_def Let_def get_set_hitReadyAt get_hp_landHit
      hp_after_hit_set_hitReadyAt)

lemma applyDamage_cases:
  assumes "applyDamage rnd a d now m w st = Inr st'"
  shows "st' = st \<or> st' = set_hitReadyAt a (now + HIT_COOLDOWN_MS) st
       \<or> st' = landHit rnd a d now m (set_hitReadyAt a (now + HIT_COOLDOWN_MS) st)
       \<or> st' = onDeath rnd a d now
                 (landHit rnd a d now m (set_hitReadyAt a (now + HIT_COOLDOWN_MS) st))"
  using assms by (auto simp add: applyDamage_def Let_def split: if_splits)

lemma applyDamage_returns:
  "valid_ref st a \<Longrightarrow> valid_ref st d \<Longrightarrow> \<exists>st'. applyDamage rnd a d now m w st = Inr st'"
  by (simp add: applyDamage_def Let_def get_set_hitReadyAt)

section \<open>The death dispatch\<close>

text \<open>Away from the defender, the death branch only adds the kill bonus to the attacker's score.\<close>

lemma onDeath_fighter_of_other:
  assumes "t \<noteq> d"
  shows "fighter_of (onDeath rnd a d now st) t =
     map_option (\<lambda>f. if t = a then f\<lparr> f_score := f_score f + ko_bonus a d \<rparr> else f)
       (fighter_of st t)"
proof (cases "t = a")
  case True
  then show ?thesis using assms
    by (cases "fighter_of st a")
       (auto simp add: onDeath_def Let_def scheduleNextBoss_def add_score_def store_simps
          fighter_of_fields spawnScoreOrbs_frame ko_bonus_def)
next
  case False
  then show ?thesis using assms
    by (cases "fighter_of st t")
       (auto simp add: onDeath_def Let_def scheduleNextBoss_def add_score_def store_simps
          fighter_of_fields spawnScoreOrbs_frame)
qed

lemma onDeath_enemy_of_other:
  assumes "t \<noteq> d"
  shows "enemy_of (onDeath rnd a d now st) t = enemy_of st t"
  using assms
  by (auto simp add: onDeath_def Let_def scheduleNextBoss_def add_score_def store_simps
      enemy_of_fields spawnScoreOrbs_frame)

lemma onDeath_valid_fighter:
  "fighter_of (onDeath rnd a d now st) t = None \<longleftrightarrow> fighter_of st t = None"
  by (cases "fighter_of st t")
     (auto simp add: onDeath_def Let_def scheduleNextBoss_def add_score_def store_simps
          fighter_of_fields spawnScoreOrbs_frame)

lemma get_hp_onDeath_other:
  "t \<noteq> d \<Longrightarrow> get_hp (onDeath rnd a d now st) t = get_hp st t"
  by (cases "fighter_of st t")
     (simp_all add: get_hp_def onDeath_fighter_of_other onDeath_enemy_of_other)


section \<open>Sample inputs\<close>

lemma makeFighter_fields:
  "f_hp (makeFighter x y tint) = 100" "f_maxHp (makeFighter x y tint) = 100"
  "f_atk (makeFighter x y tint) = 10" "f_def (makeFighter x y tint) = 10"
  "f_edges (makeFighter x y tint) = 4" "f_plasma (makeFighter x y tint) = 0"
  "f_wave (makeFighter x y tint) = 0" "f_score (makeFighter x y tint) = 0"
  "f_hitReadyAt (makeFighter x y tint) = 0" "f_invulnUntil (makeFighter x y tint) = 0"
  "f_plasmaPrimed (makeFighter x y tint) = True"
  by (simp_all add: makeFighter_def computeStats_4)

lemma makeFighter_pos:
  "f_x (makeFighter x y tint) = x" "f_y (makeFighter x y tint) = y"
  "f_r (makeFighter x y tint) = 18" "f_vx (makeFighter x y tint) = 0"
  "f_vy (makeFighter x y tint) = 0" "f_stuckFrames (makeFighter x y tint) = 0"
  by (simp_all add: makeFighter_def PLAYER_RADIUS_def Let_def)

lemma duel_refs:
  "fighter_of (duel p b) RPlayer = Some p" "fighter_of (duel p b) RBot = Some b"
  "botPlayer (duel p b) = Some b" "player (duel p b) = p" "partsOnField (duel p b) = []"
  "valid_ref (duel p b) RPlayer" "valid_ref (duel p b) RBot"
  by (simp_all add: duel_def fighter_of_def valid_ref_def)





section \<open>PvP elimination\<close>



section \<open>Bounds of a fighter\<close>

lemma recompute_inv:
  assumes "0 \<le> f_edges f" "f_edges f \<le> PLAYER_EDGE_CAP" "0 \<le> f_plasma f" "f_plasma f \<le> PLASMA_MAX"
    "0 \<le> f_wave f" "f_wave f \<le> WAVE_MAX"
  shows "fighter_inv (recomputeFighterStats f)"
proof -
  have "(0::real) \<le> of_int (maxHp (computeStats (f_edges f)))"
    using computeStats_maxHp_ge[of "f_edges f"] by simp
  then show ?thesis using assms
    by (simp add: fighter_inv_def recomputeFighterStats_def Let_def clamp_def)
qed

lemma heal_inv:
  "fighter_inv f \<Longrightarrow> fighter_inv (f\<lparr> f_hp := clamp v 0 (of_int (f_maxHp f)) \<rparr>)"
  by (simp add: fighter_inv_def clamp_def)

lemma recomputeFighterStats_inv: "fighter_inv f \<Longrightarrow> fighter_inv (recomputeFighterStats f)"
  by (rule recompute_inv) (simp_all add: fighter_inv_def)

lemma addPlasma_inv: "fighter_inv f \<Longrightarrow> fighter_inv (addPlasma f n)"
proof -
  assume inv: "fighter_inv f"
  let ?g = "f\<lparr> f_plasma := clamp (f_plasma f + n) 0 PLASMA_MAX \<rparr>"
  have "fighter_inv ?g" using inv by (simp add: fighter_inv_def clamp_def PLASMA_MAX_def)
  then have "fighter_inv (recomputeFighterStats ?g)" by (rule recomputeFighterStats_inv)
  from heal_inv[OF this] \<open>fighter_inv ?g\<close> inv show ?thesis
    by (simp add: addPlasma_def Let_def)
qed

lemma addWave_inv: "fighter_inv f \<Longrightarrow> fighter_inv (addWave f n)"
  by (simp add: fighter_inv_def addWave_def clamp_def WAVE_MAX_def)

lemma regenTick_inv: "fighter_inv f \<Longrightarrow> fighter_inv (regenTick f dt)"
  by (simp add: fighter_inv_def regenTick_def clamp_def Let_def)

lemma counters_inv:
  "fighter_inv f \<Longrightarrow> fighter_inv (f\<lparr> f_score := s \<rparr>)"
  "fighter_inv f \<Longrightarrow> fighter_inv (f\<lparr> f_parts := n \<rparr>)"
  "fighter_inv f \<Longrightarrow> fighter_inv (f\<lparr> f_plasmaParts := n \<rparr>)"
  "fighter_inv f \<Longrightarrow> fighter_inv (f\<lparr> f_waveParts := n \<rparr>)"
  "fighter_inv f \<Longrightarrow> fighter_inv (f\<lparr> f_regenParts := n \<rparr>)"
  by (simp_all add: fighter_inv_def)

lemma pickupPart_inv: "fighter_inv f \<Longrightarrow> fighter_inv (pickupPart f part)"
proof -
  assume inv: "fighter_inv f"
  let ?a = "f\<lparr> f_parts := f_parts f + 1 \<rparr>\<lparr> f_score := f_score f + SCORE_PER_EDGE_PART \<rparr>"
  let ?e = "?a\<lparr> f_edges := clamp (f_edges f + 1) 3 PLAYER_EDGE_CAP \<rparr>"
  let ?p = "f\<lparr> f_plasmaParts := f_plasmaParts f + 1 \<rparr>\<lparr> f_score := f_score f + SCORE_PER_EDGE_PART \<rparr>"
  let ?w = "f\<lparr> f_waveParts := f_waveParts f + 1 \<rparr>\<lparr> f_score := f_score f + SCORE_PER_WAVE_PART \<rparr>"
  have a: "fighter_inv ?a" using inv by (simp add: counters_inv)
  have "fighter_inv ?e" using inv by (simp add: fighter_inv_def clamp_def PLAYER_EDGE_CAP_def)
  then have "fighter_inv (recomputeFighterStats ?e)" by (rule recomputeFighterStats_inv)
  note e = heal_inv[OF this]
  have p: "fighter_inv (addPlasma ?p 1)" using inv by (intro addPlasma_inv) (simp add: counters_inv)
  have w: "fighter_inv (addWave ?w 1)" using inv by (intro addWave_inv) (simp add: counters_inv)
  show ?thesis
    using inv a e p w
    by (simp add: pickupPart_def Let_def counters_inv)
qed

lemma respawnFighter_inv: "fighter_inv f \<Longrightarrow> fighter_inv (respawnFighter clock bs f isPlayer)"
proof -
  assume inv: "fighter_inv f"
  have m: "(0::real) \<le> of_int (maxHp (computeStats (f_edges f)))"
    using computeStats_maxHp_ge[of "f_edges f"] by simp
  show ?thesis using inv m
    by (simp add: fighter_inv_def respawnFighter_def recomputeFighterStats_def Let_def
        split: option.split)
qed

lemma makeFighter_inv: "fighter_inv (makeFighter x y tint)"
  by (simp add: fighter_inv_def makeFighter_fields PLAYER_EDGE_CAP_def PLASMA_MAX_def WAVE_MAX_def)

lemma fighters_ok_upd_fighter:
  assumes "fighters_ok st"
    and "\<And>f. fighter_of st t = Some f \<Longrightarrow> fighter_inv f \<Longrightarrow> fighter_inv (g f)"
  shows "fighters_ok (upd_fighter t g st)"
  using assms
  by (cases t) (auto simp add: fighters_ok_def upd_fighter_def fighter_of_def split: option.splits)

lemma fighters_ok_upd_enemy [simp]: "fighters_ok (upd_enemy t g st) = fighters_ok st"
  by (simp add: fighters_ok_def upd_enemy_frame)

lemma fighters_ok_fields [simp]:
  "fighters_ok (st\<lparr> partsOnField := ps \<rparr>) = fighters_ok st"
  "fighters_ok (st\<lparr> kos := k \<rparr>) = fighters_ok st"
  "fighters_ok (st\<lparr> boss := b \<rparr>) = fighters_ok st"
  "fighters_ok (st\<lparr> message := msg \<rparr>) = fighters_ok st"
  "fighters_ok (st\<lparr> messageUntil := mu \<rparr>) = fighters_ok st"
  "fighters_ok (st\<lparr> nextBossAt := nb \<rparr>) = fighters_ok st"
  "fighters_ok (st\<lparr> projectiles := prs \<rparr>) = fighters_ok st"
  by (simp_all add: fighters_ok_def)

lemma fighter_inv_fields:
  "fighter_inv (f\<lparr> f_hitReadyAt := v \<rparr>) = fighter_inv f"
  "fighter_inv (f\<lparr> f_score := s \<rparr>) = fighter_inv f"
  "fighter_inv (f\<lparr> f_lastLandedHitAt := v \<rparr>) = fighter_inv f"
  "fighter_inv (f\<lparr> f_plasmaPrimed := b, f_plasmaFlashUntil := v \<rparr>) = fighter_inv f"
  by (simp_all add: fighter_inv_def)

lemma set_hitReadyAt_ok: "fighters_ok st \<Longrightarrow> fighters_ok (set_hitReadyAt t v st)"
  by (simp add: set_hitReadyAt_def fighters_ok_upd_fighter fighter_inv_fields)

lemma add_score_ok: "fighters_ok st \<Longrightarrow> fighters_ok (add_score t n st)"
  by (simp add: add_score_def fighters_ok_upd_fighter fighter_inv_fields)

lemma landHit_ok:
  assumes "fighters_ok st"
  shows "fighters_ok (landHit rnd a d now m st)"
proof -
  let ?s1 = "upd_fighter a (spend_prime st a now) st"
  have s1: "fighters_ok ?s1"
    using assms by (intro fighters_ok_upd_fighter) (simp_all add: spend_prime_def fighter_inv_fields)
  have hp: "get_hp ?s1 d = get_hp st d"
    by (rule get_upd_fighter) (simp add: spend_prime_def)
  have s2: "fighters_ok (set_hp d (hp_after_hit rnd a d m st) ?s1)"
    unfolding set_hp_def fighters_ok_upd_enemy
  proof (rule fighters_ok_upd_fighter[OF s1])
    fix f assume f: "fighter_of ?s1 d = Some f" "fighter_inv f"
    have "get_hp st d = f_hp f" using f(1) hp by (simp add: get_hp_def)
    moreover have "0 \<le> hitDamage (dd_jitter rnd) (get_atk st a) (get_def st d) (hitMult st a m)"
      using hitDamage_ge[of "dd_jitter rnd" "get_atk st a" "get_def st d" "hitMult st a m"] by linarith
    ultimately show "fighter_inv (f\<lparr> f_hp := hp_after_hit rnd a d m st \<rparr>)"
      using f(2) by (simp add: fighter_inv_def hp_after_hit_def)
  qed
  show ?thesis
    unfolding landHit_eq
    by (rule fighters_ok_upd_fighter[OF s2]) (simp add: stamp_hit_def fighter_inv_fields)
qed

lemma spawnScoreOrbs_ok [simp]: "fighters_ok (spawnScoreOrbs rnd x y n st) = fighters_ok st"
  by (simp add: spawnScoreOrbs_def Let_def)

lemma respawn_ok:
  "fighters_ok st \<Longrightarrow> fighters_ok (upd_fighter d (\<lambda>f. respawnFighter c bs f ip) st)"
  by (rule fighters_ok_upd_fighter) (simp_all add: respawnFighter_inv)

lemma onDeath_ok:
  assumes "fighters_ok st"
  shows "fighters_ok (onDeath rnd a d now st)"
proof -
  have drop: "fighters_ok (upd_fighter d (\<lambda>f. f\<lparr> f_score := max 0 (f_score f - n) \<rparr>) st)" for n
    using assms by (intro fighters_ok_upd_fighter) (simp_all add: fighter_inv_fields)
  show ?thesis
    using assms
    by (simp add: onDeath_def Let_def scheduleNextBoss_def add_score_ok respawn_ok drop)
qed

lemma applyDamage_ok:
  assumes "fighters_ok st" and "applyDamage rnd a d now m w st = Inr st'"
  shows "fighters_ok st'"
proof -
  let ?s1 = "set_hitReadyAt a (now + HIT_COOLDOWN_MS) st"
  let ?s2 = "landHit rnd a d now m ?s1"
  have s1: "fighters_ok ?s1" using assms(1) by (rule set_hitReadyAt_ok)
  then have s2: "fighters_ok ?s2" by (rule landHit_ok)
  then have s3: "fighters_ok (onDeath rnd a d now ?s2)" by (rule onDeath_ok)
  from assms(2) have "st' = st \<or> st' = ?s1 \<or> st' = ?s2 \<or> st' = onDeath rnd a d now ?s2"
    by (auto simp add: applyDamage_def Let_def split: if_splits)
  then show ?thesis using assms(1) s1 s2 s3 by auto
qed

text \<open>
  C4. If a fighter satisfies \<open>0 \<le> hp \<le> maxHp\<close>, \<open>0 \<le> edges \<le> 26\<close>, \<open>0 \<le> plasma \<le> 10\<close> and
  \<open>0 \<le> wave \<le> 8\<close>, it still does after a part pickup (with the heal of an edge-up), a
  regeneration tick, a plasma or wave level addition (with the heal of a plasma-up), a
  stat recomputation and a respawn; and if both fighters of a state satisfy the bounds,
  they still do after any call of \<open>applyDamage\<close> that returns (damage, score changes and
  the respawn of a killed fighter included).
\<close>

theorem fighter_bounds_preserved:
  assumes "fighter_inv f" and "fighters_ok st"
  shows "fighter_inv (pickupPart f part)
       \<and> fighter_inv (regenTick f dt)
       \<and> fighter_inv (addPlasma f n)
       \<and> fighter_inv (addWave f k)
       \<and> fighter_inv (recomputeFighterStats f)
       \<and> fighter_inv (respawnFighter clock bs f isPlayer)
       \<and> (\<forall>st'. applyDamage rnd attacker defender now extraMult fromWave st = Inr st'
             \<longrightarrow> fighters_ok st')"
  using assms
  by (simp add: pickupPart_inv regenTick_inv addPlasma_inv addWave_inv recomputeFighterStats_inv
      respawnFighter_inv applyDamage_ok)

theorem fighter_bounds_preserved_witness:
  "fighter_inv (pickupPart makePlayer
       \<lparr> p_x = 0, p_y = 0, p_r = PART_RADIUS, p_kind = Edge, p_value = None, p_born = 0 \<rparr>)
   \<and> fighter_inv (regenTick makePlayer (1 / 60))
   \<and> fighter_inv (addPlasma makePlayer 1)
   \<and> fighter_inv (addWave makePlayer 1)
   \<and> fighter_inv (recomputeFighterStats makePlayer)
   \<and> fighter_inv (respawnFighter 1000 None makePlayer True)
   \<and> (\<exists>st'. applyDamage sample_draws RPlayer RBot 1000 1 False (duel makePlayer makeBotPlayer)
                = Inr st' \<and> fighters_ok st')"
proof -
  have f: "fighter_inv makePlayer" by (simp add: makePlayer_def makeFighter_inv)
  have st: "fighters_ok (duel makePlayer makeBotPlayer)"
    by (simp add: fighters_ok_def duel_refs makePlayer_def makeBotPlayer_def makeFighter_inv)
  let ?part = "\<lparr> p_x = 0, p_y = 0, p_r = PART_RADIUS, p_kind = Edge, p_value = None, p_born = 0 \<rparr>"
  have ready: "get_hitReadyAt (duel makePlayer makeBotPlayer) RPlayer \<le> 1000 \<or> False"
    by (simp add: get_defs duel_refs makePlayer_def makeFighter_fields)
  have vulnerable: "get_invulnUntil (duel makePlayer makeBotPlayer) RBot = 0
      \<or> get_invulnUntil (duel makePlayer makeBotPlayer) RBot \<le> 1000"
    by (simp add: get_defs duel_refs makeBotPlayer_def makeFighter_fields)
  from applyDamage_lands[OF duel_refs(6) duel_refs(7) ready vulnerable, of sample_draws 1]
  obtain st' where run:
    "applyDamage sample_draws RPlayer RBot 1000 1 False (duel makePlayer makeBotPlayer) = Inr st'"
    by (cases "hp_after_hit sample_draws RPlayer RBot 1 (duel makePlayer makeBotPlayer) \<le> 0")
       (simp_all add: Let_def)
  note inst = fighter_bounds_preserved[OF f st, of ?part "1 / 60" 1 1 1000 None True sample_draws
      RPlayer RBot 1000 1 False]
  from inst run have "fighters_ok st'" by blast
  with inst run show ?thesis by blast
qed

section \<open>Spawn invulnerability\<close>

lemma applyDamage_invulnerable:
  assumes "valid_ref st attacker" and "valid_ref st defender"
    and "get_invulnUntil st defender \<noteq> 0" and "now < get_invulnUntil st defender"
  shows "applyDamage rnd attacker defender now extraMult fromWave st =
           Inr (if now < get_hitReadyAt st attacker \<and> \<not> fromWave then st
                else set_hitReadyAt attacker (now + HIT_COOLDOWN_MS) st)"
  using assms by (simp add: applyDamage_def Let_def get_set_hitReadyAt)

lemma shielded_bot:
  "get_invulnUntil (duel makePlayer (makeBotPlayer\<lparr> f_invulnUntil := 2000 \<rparr>)) RBot = 2000"
  "get_hitReadyAt (duel makePlayer (makeBotPlayer\<lparr> f_invulnUntil := 2000 \<rparr>)) RPlayer = 0"
  "get_hp (duel makePlayer (makeBotPlayer\<lparr> f_invulnUntil := 2000 \<rparr>)) RBot = 100"
  by (simp_all add: get_defs duel_refs makePlayer_def makeBotPlayer_def makeFighter_fields)

text \<open>
  C2, as stated, fails: the player (cooldown elapsed) strikes a bot whose invulnerability
  lasts until 2000 at time 1000. The bot keeps its health, but the player's
  \<^verbatim>\<open>hitReadyAt\<close> goes from 0 to 1320: the cooldown is set before the invulnerability test.
\<close>

theorem invulnerable_hit_consumes_cooldown:
  "1000 < get_invulnUntil (duel makePlayer (makeBotPlayer\<lparr> f_invulnUntil := 2000 \<rparr>)) RBot
   \<and> get_hitReadyAt (duel makePlayer (makeBotPlayer\<lparr> f_invulnUntil := 2000 \<rparr>)) RPlayer = 0
   \<and> applyDamage sample_draws RPlayer RBot 1000 1 False
        (duel makePlayer (makeBotPlayer\<lparr> f_invulnUntil := 2000 \<rparr>))
      = Inr (set_hitReadyAt RPlayer 1320 (duel makePlayer (makeBotPlayer\<lparr> f_invulnUntil := 2000 \<rparr>)))
   \<and> get_hitReadyAt
        (set_hitReadyAt RPlayer 1320 (duel makePlayer (makeBotPlayer\<lparr> f_invulnUntil := 2000 \<rparr>)))
        RPlayer = 1320"
proof -
  let ?st = "duel makePlayer (makeBotPlayer\<lparr> f_invulnUntil := 2000 \<rparr>)"
  have inv: "get_invulnUntil ?st RBot \<noteq> 0" "1000 < get_invulnUntil ?st RBot"
    by (simp_all add: shielded_bot)
  from applyDamage_invulnerable[OF duel_refs(6) duel_refs(7) inv, of sample_draws 1 False]
  show ?thesis
    by (simp add: shielded_bot HIT_COOLDOWN_MS_def get_hitReadyAt_set duel_refs)
qed

text \<open>
  C2, amended. If the defender's invulnerability is set and still running, the call
  returns and changes nothing but the attacker's \<^verbatim>\<open>hitReadyAt\<close>: the defender's health is
  as before; the attacker's \<^verbatim>\<open>hitReadyAt\<close> is as before when the call stops at the cooldown
  gate (cooldown running and not a wave hit), and is \<open>now + 320\<close> otherwise.
\<close>

theorem invulnerable_defender_keeps_health:
  assumes "valid_ref st attacker" and "valid_ref st defender"
    and "get_invulnUntil st defender \<noteq> 0" and "now < get_invulnUntil st defender"
  shows "applyDamage rnd attacker defender now extraMult fromWave st =
           Inr (if now < get_hitReadyAt st attacker \<and> \<not> fromWave then st
                else set_hitReadyAt attacker (now + HIT_COOLDOWN_MS) st)
       \<and> get_hp (if now < get_hitReadyAt st attacker \<and> \<not> fromWave then st
                  else set_hitReadyAt attacker (now + HIT_COOLDOWN_MS) st) defender
           = get_hp st defender
       \<and> get_hitReadyAt (if now < get_hitReadyAt st attacker \<and> \<not> fromWave then st
                  else set_hitReadyAt attacker (now + HIT_COOLDOWN_MS) st) attacker
           = (if now < get_hitReadyAt st attacker \<and> \<not> fromWave then get_hitReadyAt st attacker
              else now + HIT_COOLDOWN_MS)"
  using assms applyDamage_invulnerable[OF assms]
  by (simp add: get_set_hitReadyAt get_hitReadyAt_set)

theorem invulnerable_defender_keeps_health_witness:
  "applyDamage sample_draws RPlayer RBot 1000 1 False
        (duel makePlayer (makeBotPlayer\<lparr> f_invulnUntil := 2000 \<rparr>))
      = Inr (set_hitReadyAt RPlayer 1320 (duel makePlayer (makeBotPlayer\<lparr> f_invulnUntil := 2000 \<rparr>)))
   \<and> get_hp (set_hitReadyAt RPlayer 1320 (duel makePlayer (makeBotPlayer\<lparr> f_invulnUntil := 2000 \<rparr>)))
        RBot = 100"
proof -
  let ?st = "duel makePlayer (makeBotPlayer\<lparr> f_invulnUntil := 2000 \<rparr>)"
  have inv: "get_invulnUntil ?st RBot \<noteq> 0" "1000 < get_invulnUntil ?st RBot"
    by (simp_all add: shielded_bot)
  from invulnerable_defender_keeps_health[OF duel_refs(6) duel_refs(7) inv, of sample_draws 1 False]
  show ?thesis by (simp add: shielded_bot HIT_COOLDOWN_MS_def)
qed

section \<open>The primed first strike\<close>








section \<open>The collision resolver\<close>

lemma resolveCircleRect_inside:
  assumes "o_x rect \<le> b_x ent" "b_x ent \<le> o_x rect + o_w rect"
    and "o_y rect \<le> b_y ent" "b_y ent \<le> o_y rect + o_h rect"
  shows "resolveCircleRect ent rect = ent"
  using assms by (simp add: resolveCircleRect_def clamp_def Let_def)

text \<open>
  C3. An entity of radius 18 at the centre of a 100 by 100 obstacle overlaps it, and one
  call of the resolver leaves it where it is, at distance 0 from the nearest point of the
  rectangle: with the centre inside, \<open>dx\<close> and \<open>dy\<close> are 0 and so is the push.
\<close>

theorem resolveCircleRect_leaves_inside:
  "resolveCircleRect \<lparr> b_x = 100, b_y = 100, b_vx = 0, b_vy = 0, b_r = 18 \<rparr>
       \<lparr> o_x = 50, o_y = 50, o_w = 100, o_h = 100 \<rparr>
     = \<lparr> b_x = 100, b_y = 100, b_vx = 0, b_vy = 0, b_r = 18 \<rparr>
   \<and> rectDistance 100 100 \<lparr> o_x = 50, o_y = 50, o_w = 100, o_h = 100 \<rparr> = 0"
  by (simp add: resolveCircleRect_inside rectDistance_def hypot_def clamp_def)

text \<open>
  With the centre outside the rectangle, at a distance of at least 0.001 and less than the
  radius plus the margin 2, one call moves the entity to distance radius plus 2.
\<close>

lemma clamp_outward:
  assumes "lo \<le> hi" and "0 \<le> k"
  shows "clamp (x + k * (x - clamp x lo hi)) lo hi = clamp x (lo::real) hi"
proof -
  consider "x < lo" | "lo \<le> x \<and> x \<le> hi" | "hi < x" by linarith
  then show ?thesis
  proof cases
    case 1
    then have "k * (x - lo) \<le> 0" using assms(2) by (simp add: mult_nonneg_nonpos)
    then show ?thesis using 1 assms(1) by (simp add: clamp_def min_def max_def)
  next
    case 2
    then have "clamp x lo hi = x" by (auto simp add: clamp_def)
    then show ?thesis by simp
  next
    case 3
    then have "0 \<le> k * (x - hi)" using assms(2) by simp
    then show ?thesis using 3 assms(1) by (simp add: clamp_def min_def max_def)
  qed
qed

lemma resolveCircleRect_outside:
  assumes w: "0 \<le> o_w rect" "0 \<le> o_h rect" and r: "0 \<le> b_r ent"
    and far: "1 / 1000 \<le> rectDistance (b_x ent) (b_y ent) rect"
    and near: "rectDistance (b_x ent) (b_y ent) rect < b_r ent + 2"
  shows "rectDistance (b_x (resolveCircleRect ent rect)) (b_y (resolveCircleRect ent rect)) rect
           = b_r ent + 2"
proof -
  define cx where "cx = clamp (b_x ent) (o_x rect) (o_x rect + o_w rect)"
  define cy where "cy = clamp (b_y ent) (o_y rect) (o_y rect + o_h rect)"
  define dx where "dx = b_x ent - cx"
  define dy where "dy = b_y ent - cy"
  define d where "d = sqrt (dx * dx + dy * dy)"
  define R where "R = b_r ent + 2"
  have d_eq: "d = rectDistance (b_x ent) (b_y ent) rect"
    by (simp add: d_def dx_def dy_def cx_def cy_def rectDistance_def hypot_def)
  have dpos: "0 < d" and dge: "1 / 1000 \<le> d" and dlt: "d < R"
    using far near by (simp_all add: d_eq R_def)
  have d2: "dx * dx + dy * dy = d * d"
    unfolding d_def by (simp add: sum_nonneg)
  have d2ge: "1 / 1000000 \<le> dx * dx + dy * dy"
  proof -
    have "(1 / 1000) * (1 / 1000) \<le> d * d" using dge by (intro mult_mono) simp_all
    then show ?thesis by (simp add: d2)
  qed
  have d2lt: "dx * dx + dy * dy < R * R"
    unfolding d2 using dlt dpos by (intro mult_strict_mono) simp_all
  have mx: "max (1 / 1000000) (dx * dx + dy * dy) = dx * dx + dy * dy"
    using d2ge by simp
  define k where "k = (R - d) / d"
  have kpos: "0 \<le> k" using dpos dlt by (simp add: k_def)
  have x': "b_x (resolveCircleRect ent rect) = b_x ent + k * dx"
    using d2lt
    by (simp add: resolveCircleRect_def Let_def cx_def[symmetric] cy_def[symmetric]
        dx_def[symmetric] dy_def[symmetric] R_def[symmetric] mx d_def[symmetric] k_def)
  have y': "b_y (resolveCircleRect ent rect) = b_y ent + k * dy"
    using d2lt
    by (simp add: resolveCircleRect_def Let_def cx_def[symmetric] cy_def[symmetric]
        dx_def[symmetric] dy_def[symmetric] R_def[symmetric] mx d_def[symmetric] k_def)
  have cx': "clamp (b_x ent + k * dx) (o_x rect) (o_x rect + o_w rect) = cx"
    unfolding dx_def cx_def using w(1) kpos by (intro clamp_outward) simp_all
  have cy': "clamp (b_y ent + k * dy) (o_y rect) (o_y rect + o_h rect) = cy"
    unfolding dy_def cy_def using w(2) kpos by (intro clamp_outward) simp_all
  have ex: "b_x ent + k * dx - cx = (1 + k) * dx" and ey: "b_y ent + k * dy - cy = (1 + k) * dy"
    by (simp_all add: dx_def dy_def algebra_simps)
  have "rectDistance (b_x ent + k * dx) (b_y ent + k * dy) rect
      = hypot (b_x ent + k * dx - cx) (b_y ent + k * dy - cy)"
    by (simp only: rectDistance_def cx' cy')
  also have "\<dots> = sqrt (((1 + k) * dx) * ((1 + k) * dx) + ((1 + k) * dy) * ((1 + k) * dy))"
    by (simp only: ex ey hypot_def)
  also have "((1 + k) * dx) * ((1 + k) * dx) + ((1 + k) * dy) * ((1 + k) * dy)
      = ((1 + k) * d) * ((1 + k) * d)"
  proof -
    have "((1 + k) * dx) * ((1 + k) * dx) + ((1 + k) * dy) * ((1 + k) * dy)
        = (1 + k) * (1 + k) * (dx * dx + dy * dy)"
      by (simp add: algebra_simps)
    also have "\<dots> = ((1 + k) * d) * ((1 + k) * d)" by (simp only: d2) simp
    finally show ?thesis .
  qed
  also have "sqrt (((1 + k) * d) * ((1 + k) * d)) = (1 + k) * d"
    using kpos dpos by simp
  also have "(1 + k) * d = R" using dpos by (simp add: k_def field_simps)
  finally show ?thesis by (simp add: x' y' R_def)
qed

section \<open>Stuck detection\<close>

lemma moveFighter_keeps:
  "f_vx (moveFighter obs f dt speed) = f_vx f"
  "f_vy (moveFighter obs f dt speed) = f_vy f"
  "f_stuckFrames (moveFighter obs f dt speed) = f_stuckFrames f"
  "f_escapeX (moveFighter obs f dt speed) = f_escapeX f"
  "f_escapeY (moveFighter obs f dt speed) = f_escapeY f"
  "f_escapeUntil (moveFighter obs f dt speed) = f_escapeUntil f"
  by (simp_all add: moveFighter_def Let_def)

lemma botMoveAndDetectStuck_fields:
  "f_stuckFrames (botMoveAndDetectStuck ua uj obs dt now b) =
     (if BOT_STUCK_FRAMES \<le> stuck_counter obs dt b then 0 else stuck_counter obs dt b)"
  "f_escapeX (botMoveAndDetectStuck ua uj obs dt now b) =
     (if BOT_STUCK_FRAMES \<le> stuck_counter obs dt b then cos (rand 0 (2 * pi) ua) else f_escapeX b)"
  "f_escapeY (botMoveAndDetectStuck ua uj obs dt now b) =
     (if BOT_STUCK_FRAMES \<le> stuck_counter obs dt b then sin (rand 0 (2 * pi) ua) else f_escapeY b)"
  "f_escapeUntil (botMoveAndDetectStuck ua uj obs dt now b) =
     (if BOT_STUCK_FRAMES \<le> stuck_counter obs dt b
      then now + BOT_ESCAPE_MS + rand 120 280 uj else f_escapeUntil b)"
  by (simp_all add: botMoveAndDetectStuck_def Let_def stuck_counter_def bot_trying_def
      bot_moved_def moveFighter_keeps)

text \<open>
  C7. After the movement of a bot tick: if the bot is trying to move (speed above 0.2)
  and has displaced less than 2, the stuck counter goes up by one; with a displacement of
  at least 2 it goes down by one, not below zero. If the counter is then below 10, it is
  stored and the escape state is untouched. If it has reached 10, the counter is reset to
  0, the escape direction is the unit vector of a freshly drawn angle, and the escape
  deadline is \<open>now + 550 + rand(120, 280)\<close>, at least 670 ms after \<open>now\<close>.
\<close>

theorem bot_stuck_detection:
  "(bot_trying b \<and> bot_moved obs dt b < BOT_STUCK_DIST_EPS
      \<longrightarrow> stuck_counter obs dt b = f_stuckFrames b + 1)
   \<and> (BOT_STUCK_DIST_EPS \<le> bot_moved obs dt b
      \<longrightarrow> stuck_counter obs dt b = max 0 (f_stuckFrames b - 1))
   \<and> (stuck_counter obs dt b < BOT_STUCK_FRAMES \<longrightarrow>
        f_stuckFrames (botMoveAndDetectStuck ua uj obs dt now b) = stuck_counter obs dt b
        \<and> f_escapeX (botMoveAndDetectStuck ua uj obs dt now b) = f_escapeX b
        \<and> f_escapeY (botMoveAndDetectStuck ua uj obs dt now b) = f_escapeY b
        \<and> f_escapeUntil (botMoveAndDetectStuck ua uj obs dt now b) = f_escapeUntil b)
   \<and> (BOT_STUCK_FRAMES \<le> stuck_counter obs dt b \<longrightarrow>
        f_stuckFrames (botMoveAndDetectStuck ua uj obs dt now b) = 0
        \<and> f_escapeX (botMoveAndDetectStuck ua uj obs dt now b) = cos (rand 0 (2 * pi) ua)
        \<and> f_escapeY (botMoveAndDetectStuck ua uj obs dt now b) = sin (rand 0 (2 * pi) ua)
        \<and> (f_escapeX (botMoveAndDetectStuck ua uj obs dt now b))\<^sup>2
            + (f_escapeY (botMoveAndDetectStuck ua uj obs dt now b))\<^sup>2 = 1
        \<and> f_escapeUntil (botMoveAndDetectStuck ua uj obs dt now b)
            = now + BOT_ESCAPE_MS + rand 120 280 uj
        \<and> (0 \<le> uj \<longrightarrow> now + 670 \<le> f_escapeUntil (botMoveAndDetectStuck ua uj obs dt now b)
                      \<and> now < f_escapeUntil (botMoveAndDetectStuck ua uj obs dt now b)))"
proof -
  have "(cos (rand 0 (2 * pi) ua))\<^sup>2 + (sin (rand 0 (2 * pi) ua))\<^sup>2 = 1"
    by (simp add: add.commute)
  moreover have "0 \<le> uj \<Longrightarrow> now + 670 \<le> now + BOT_ESCAPE_MS + rand 120 280 uj"
    by (simp add: BOT_ESCAPE_MS_def rand_def)
  ultimately show ?thesis
    by (simp add: botMoveAndDetectStuck_fields stuck_counter_def)
       (simp add: BOT_ESCAPE_MS_def rand_def)
qed

theorem bot_stuck_detection_witness:
  "stuck_counter [] 0 (makeBotPlayer\<lparr> f_vx := 1, f_stuckFrames := 9 \<rparr>) = 10
   \<and> f_stuckFrames (botMoveAndDetectStuck (1 / 4) (1 / 2) [] 0 1000
        (makeBotPlayer\<lparr> f_vx := 1, f_stuckFrames := 9 \<rparr>)) = 0
   \<and> f_escapeUntil (botMoveAndDetectStuck (1 / 4) (1 / 2) [] 0 1000
        (makeBotPlayer\<lparr> f_vx := 1, f_stuckFrames := 9 \<rparr>)) = 1750
   \<and> 1000 < f_escapeUntil (botMoveAndDetectStuck (1 / 4) (1 / 2) [] 0 1000
        (makeBotPlayer\<lparr> f_vx := 1, f_stuckFrames := 9 \<rparr>))"
proof -
  let ?b = "makeBotPlayer\<lparr> f_vx := 1, f_stuckFrames := 9 \<rparr>"
  have trying: "bot_trying ?b"
    by (simp add: bot_trying_def hypot_def makeBotPlayer_def makeFighter_pos)
  have moved: "bot_moved [] 0 ?b = 0"
    by (simp add: bot_moved_def moveFighter_def moveEntity_def resolveWorldBounds_def
        fighter_body_def Let_def hypot_def clamp_def makeBotPlayer_def makeFighter_pos
        WORLD_W_def WORLD_H_def)
  have sc: "stuck_counter [] 0 ?b = 10"
    by (simp add: stuck_counter_def trying moved BOT_STUCK_DIST_EPS_def)
  from bot_stuck_detection[of ?b "[]" 0 "1 / 4" "1 / 2" 1000]
  show ?thesis
    by (simp add: sc BOT_STUCK_FRAMES_def BOT_ESCAPE_MS_def rand_def)
qed

section \<open>Wave projectiles: one projectile, one frame\<close>

lemma firstHit_find:
  "firstHit st pr ts =
     List.find (\<lambda>t. 0 < get_hp st t \<and> t \<noteq> pr_owner pr
                    \<and> rectHitProjectile pr (get_x st t) (get_y st t) (get_r st t)) ts"
  by (induction ts) (auto simp add: not_le)

lemma firstHit_projectiles_upd:
  "firstHit (st\<lparr> projectiles := prs \<rparr>) pr ts = firstHit st pr ts"
  by (simp add: firstHit_find get_projectiles_upd)

lemma projectiles_set_hitReadyAt:
  "projectiles (set_hitReadyAt t v st) = projectiles st"
  by (simp add: set_hitReadyAt_def store_simps)

lemma projectiles_landHit: "projectiles (landHit rnd a d now m st) = projectiles st"
  by (simp add: landHit_eq set_hp_def store_simps)

lemma projectiles_onDeath: "projectiles (onDeath rnd a d now st) = projectiles st"
  by (simp add: onDeath_def Let_def scheduleNextBoss_def add_score_def store_simps
      spawnScoreOrbs_def)

lemma applyDamage_projectiles:
  "applyDamage rnd a d now m w st = Inr st' \<Longrightarrow> projectiles st' = projectiles st"
  by (drule applyDamage_cases)
     (auto simp add: projectiles_set_hitReadyAt projectiles_landHit projectiles_onDeath)

lemma applyDamage_hp_other:
  "applyDamage rnd a d now m w st = Inr st' \<Longrightarrow> t \<noteq> d \<Longrightarrow> get_hp st' t = get_hp st t"
  by (drule applyDamage_cases)
     (auto simp add: get_set_hitReadyAt get_hp_landHit get_hp_onDeath_other)

lemma projectileTargets_valid: "t \<in> set (projectileTargets st) \<Longrightarrow> valid_ref st t"
  by (auto simp add: projectileTargets_def valid_ref_def split: if_splits)

lemma find_Some_in_set: "List.find P xs = Some x \<Longrightarrow> x \<in> set xs \<and> P x"
  by (induction xs) (auto split: if_splits)

lemma splice1_update: "splice1 i (xs[i := x]) = splice1 i xs"
  by (simp add: splice1_def)

lemma projectileStep_unfold:
  "projectileStep rnd dt now i st =
     (let pr = advanceProjectile dt (projectiles st ! i);
          st0 = st\<lparr> projectiles := (projectiles st)[i := pr] \<rparr>
      in case projectileHit dt i st of
           None \<Rightarrow>
             Inr (if pr_age pr \<ge> pr_life pr
                  then st0\<lparr> projectiles := splice1 i (projectiles st) \<rparr> else st0)
         | Some t \<Rightarrow>
             (case applyDamage rnd (pr_owner pr) t now
                     (pr_damageMult pr * (1 + of_int (pr_waveLevel pr) * (5 / 100))) True
                     (set_hitReadyAt (pr_owner pr) (min (get_hitReadyAt st (pr_owner pr)) now) st0) of
                Inl e \<Rightarrow> Inl e
              | Inr st2 \<Rightarrow> Inr (st2\<lparr> projectiles := splice1 i (projectiles st2) \<rparr>)))"
  by (simp add: projectileStep_def Let_def advanceProjectile_def projectileHit_def
      firstHit_find get_projectiles_upd splice1_update cong: option.case_cong)

lemma advanceProjectile_owner: "pr_owner (advanceProjectile dt pr) = pr_owner pr"
  by (simp add: advanceProjectile_def)

lemma projectileStep_effect:
  assumes i: "i < length (projectiles st)"
    and owner: "valid_ref st (pr_owner (projectiles st ! i))"
  shows "\<exists>st'. projectileStep rnd dt now i st = Inr st'
     \<and> projectiles st' =
         (if projectileHit dt i st \<noteq> None
             \<or> pr_life (projectiles st ! i) \<le> pr_age (projectiles st ! i) + dt
          then splice1 i (projectiles st)
          else (projectiles st)[i := advanceProjectile dt (projectiles st ! i)])
     \<and> (\<forall>t. projectileHit dt i st \<noteq> Some t \<longrightarrow> get_hp st' t = get_hp st t)
     \<and> (projectileHit dt i st = None \<longrightarrow>
          (\<forall>t. fighter_of st' t = fighter_of st t \<and> enemy_of st' t = enemy_of st t))"
proof -
  define pr where "pr = advanceProjectile dt (projectiles st ! i)"
  define st0 where "st0 = st\<lparr> projectiles := (projectiles st)[i := pr] \<rparr>"
  have age: "pr_age pr = pr_age (projectiles st ! i) + dt" "pr_life pr = pr_life (projectiles st ! i)"
    by (simp_all add: pr_def advanceProjectile_def)
  have own: "pr_owner pr = pr_owner (projectiles st ! i)"
    by (simp add: pr_def advanceProjectile_owner)
  show ?thesis
  proof (cases "projectileHit dt i st")
    case None
    then show ?thesis
      by (simp add: projectileStep_unfold Let_def pr_def[symmetric] age
          fighter_of_fields enemy_of_fields get_projectiles_upd)
  next
    case (Some t)
    define st1 where
      "st1 = set_hitReadyAt (pr_owner pr) (min (get_hitReadyAt st (pr_owner pr)) now) st0"
    define mult where "mult = pr_damageMult pr * (1 + of_int (pr_waveLevel pr) * (5 / 100))"
    have "t \<in> set (projectileTargets st)"
      using Some find_Some_in_set by (fastforce simp add: projectileHit_def Let_def)
    then have vt: "valid_ref st1 t"
      by (simp add: st1_def st0_def get_set_hitReadyAt get_projectiles_upd projectileTargets_valid)
    have vo: "valid_ref st1 (pr_owner pr)"
      using owner by (simp add: st1_def st0_def get_set_hitReadyAt get_projectiles_upd own)
    from applyDamage_returns[OF vo vt] obtain st2 where
      run: "applyDamage rnd (pr_owner pr) t now mult True st1 = Inr st2" by blast
    have prs: "projectiles st2 = (projectiles st)[i := pr]"
      using applyDamage_projectiles[OF run]
      by (simp add: st1_def st0_def projectiles_set_hitReadyAt)
    have hp: "get_hp st2 t' = get_hp st t'" if "t' \<noteq> t" for t'
      using applyDamage_hp_other[OF run that]
      by (simp add: st1_def st0_def get_set_hitReadyAt get_projectiles_upd)
    have step: "projectileStep rnd dt now i st
        = Inr (st2\<lparr> projectiles := splice1 i (projectiles st2) \<rparr>)"
      unfolding projectileStep_unfold Let_def pr_def[symmetric] st0_def[symmetric]
          st1_def[symmetric] mult_def[symmetric] Some
      using run by simp
    show ?thesis
      using Some hp
      by (simp add: step prs splice1_update get_projectiles_upd)
  qed
qed







text \<open>A cast projectile lives for range divided by speed.\<close>

lemma tryWave_lifetime:
  assumes "tryWave p now st = Inr st'" and "projectiles st' \<noteq> projectiles st"
  shows "\<exists>pr. projectiles st' = projectiles st @ [pr]
            \<and> pr_life pr = WAVE_RANGE / WAVE_SPEED \<and> pr_age pr = 0 \<and> pr_owner pr = p"
  using assms
  by (auto simp add: tryWave_def Let_def store_simps split: option.splits if_splits)

section \<open>Wave projectiles: the whole loop\<close>

text \<open>The whole loop returns and every index it visits is in the list.\<close>

lemma applyDamage_fighter_stays:
  assumes "applyDamage rnd a d now m w st = Inr st'"
  shows "fighter_of st' t = None \<longleftrightarrow> fighter_of st t = None"
proof -
  have 1: "fighter_of (set_hitReadyAt a v s) t = None \<longleftrightarrow> fighter_of s t = None" for v s
    by (simp add: set_hitReadyAt_def store_simps)
  have 2: "fighter_of (landHit rnd a d now m s) t = None \<longleftrightarrow> fighter_of s t = None" for s
    by (simp add: landHit_eq set_hp_def store_simps)
  from applyDamage_cases[OF assms] show ?thesis
    by (auto simp add: 1 2 onDeath_valid_fighter)
qed

lemma projectileStep_fighter_stays:
  assumes "projectileStep rnd dt now i st = Inr st'"
  shows "fighter_of st' t = None \<longleftrightarrow> fighter_of st t = None"
proof (cases "projectileHit dt i st")
  case None
  then show ?thesis using assms
    by (auto simp add: projectileStep_unfold Let_def fighter_of_fields split: if_splits)
next
  case (Some u)
  have 1: "fighter_of (set_hitReadyAt a v s) t = None \<longleftrightarrow> fighter_of s t = None" for a v s
    by (simp add: set_hitReadyAt_def store_simps)
  from assms Some obtain st2 where
    "applyDamage rnd (pr_owner (advanceProjectile dt (projectiles st ! i))) u now
       (pr_damageMult (advanceProjectile dt (projectiles st ! i))
          * (1 + of_int (pr_waveLevel (advanceProjectile dt (projectiles st ! i))) * (5 / 100)))
       True
       (set_hitReadyAt (pr_owner (advanceProjectile dt (projectiles st ! i)))
          (min (get_hitReadyAt st (pr_owner (advanceProjectile dt (projectiles st ! i)))) now)
          (st\<lparr> projectiles := (projectiles st)[i := advanceProjectile dt (projectiles st ! i)] \<rparr>))
     = Inr st2" and "st' = st2\<lparr> projectiles := splice1 i (projectiles st2) \<rparr>"
    unfolding projectileStep_unfold Let_def by (auto split: sum.splits)
  from applyDamage_fighter_stays[OF this(1)] this(2) show ?thesis
    by (simp add: fighter_of_fields 1)
qed

lemma projectileLoop_returns:
  assumes "n \<le> length (projectiles st)"
    and "\<forall>p \<in> set (projectiles st). fighter_of st (pr_owner p) \<noteq> None"
  shows "\<exists>st'. projectileLoop rnds dt now n st = Inr st'"
  using assms
proof (induction n arbitrary: st)
  case 0
  then show ?case by simp
next
  case (Suc n)
  have i: "n < length (projectiles st)" using Suc.prems(1) by simp
  then have "projectiles st ! n \<in> set (projectiles st)" by simp
  then have own: "valid_ref st (pr_owner (projectiles st ! n))"
    using Suc.prems(2) by (simp add: valid_ref_iff)
  from projectileStep_effect[OF i own, of "rnds n" dt now] obtain st1 where
    st1: "projectileStep (rnds n) dt now n st = Inr st1"
      "projectiles st1 = splice1 n (projectiles st)
        \<or> projectiles st1 = (projectiles st)[n := advanceProjectile dt (projectiles st ! n)]"
    by (auto split: if_splits)
  have len: "n \<le> length (projectiles st1)"
    using st1(2) i by (auto simp add: splice1_def)
  have "set (projectiles st1)
      \<subseteq> insert (advanceProjectile dt (projectiles st ! n)) (set (projectiles st))"
  proof (cases "projectiles st1 = splice1 n (projectiles st)")
    case True
    then show ?thesis
      using set_take_subset[of n "projectiles st"] set_drop_subset[of "Suc n" "projectiles st"]
      by (auto simp add: splice1_def)
  next
    case False
    then have "projectiles st1 = (projectiles st)[n := advanceProjectile dt (projectiles st ! n)]"
      using st1(2) by simp
    then show ?thesis
      using set_update_subset_insert[of "projectiles st" n "advanceProjectile dt (projectiles st ! n)"]
      by simp
  qed
  moreover have "fighter_of st (pr_owner (advanceProjectile dt (projectiles st ! n))) \<noteq> None"
    using Suc.prems(2) \<open>projectiles st ! n \<in> set (projectiles st)\<close>
    by (simp add: advanceProjectile_owner)
  ultimately have "\<forall>p \<in> set (projectiles st1). fighter_of st (pr_owner p) \<noteq> None"
    using Suc.prems(2) by auto
  then have owners: "\<forall>p \<in> set (projectiles st1). fighter_of st1 (pr_owner p) \<noteq> None"
    by (simp add: projectileStep_fighter_stays[OF st1(1)])
  from Suc.IH[OF len owners] show ?case by (simp add: st1(1))
qed

lemma updateProjectiles_returns:
  assumes "\<forall>p \<in> set (projectiles st). fighter_of st (pr_owner p) \<noteq> None"
  shows "\<exists>st'. updateProjectiles rnds dt now st = Inr st'"
  unfolding updateProjectiles_def using assms by (intro projectileLoop_returns) simp_all

end
